theory Spec2Isabelle
  imports Main "HOL-Library.Word" "HOL-Library.Signed_Division"
begin

unbundle bit_operations_syntax

section \<open>Memory and the framebuffer object\<close>

text \<open>
  The embedding follows \<^verbatim>\<open>extmod/modframebuf.c\<close>. A C \<^verbatim>\<open>int\<close> or \<^verbatim>\<open>mp_int_t\<close> is a HOL
  \<^typ>\<open>int\<close>: C leaves signed overflow undefined, so the model and the program agree
  wherever the program's signed arithmetic is defined. The exception is the guard of the
  router \<^verbatim>\<open>fill_rect\<close>, whose sums \<open>x + w\<close> and \<open>y + h\<close> the arguments of a method drive
  past \<^verbatim>\<open>INT_MAX\<close> directly: they are written with the wrap-around of the 32-bit addition
  of the target (\<open>int32\<close> below). On \<^typ>\<open>int\<close>, \<^term>\<open>drop_bit\<close> is
  the arithmetic right shift and \<^term>\<open>(AND)\<close> the two's complement conjunction, as on the
  target. The fixed-width fields (\<^verbatim>\<open>uint8_t\<close>, \<^verbatim>\<open>uint16_t\<close>, \<^verbatim>\<open>uint32_t\<close>) are words.

  The pixel buffers live in a store that maps a buffer identity to the bytes of that
  buffer; a framebuffer object holds the identity of its buffer, so two objects over
  one buffer alias as they do in C. An access at a byte offset outside
  \<open>[0, length)\<close> of the buffer is a fault and ends the operation.
\<close>

type_synonym byte = "8 word"
type_synonym heap = "nat \<Rightarrow> byte list"

datatype fault = OutOfBounds int

datatype format =
    FRAMEBUF_MVLSB
  | FRAMEBUF_RGB565
  | FRAMEBUF_GS4_HMSB
  | FRAMEBUF_MHLSB
  | FRAMEBUF_MHMSB
  | FRAMEBUF_GS2_HMSB
  | FRAMEBUF_PL8

record mp_obj_framebuf_t =
  buf :: nat
  width :: "16 word"
  height :: "16 word"
  stride :: "16 word"
  format :: format

definition load8 :: "mp_obj_framebuf_t \<Rightarrow> int \<Rightarrow> heap \<Rightarrow> fault + byte" where
  "load8 fb i hp =
     (if 0 \<le> i \<and> i < int (length (hp (buf fb))) then Inr (hp (buf fb) ! nat i)
      else Inl (OutOfBounds i))"

definition store8 :: "mp_obj_framebuf_t \<Rightarrow> int \<Rightarrow> byte \<Rightarrow> heap \<Rightarrow> fault + heap" where
  "store8 fb i v hp =
     (if 0 \<le> i \<and> i < int (length (hp (buf fb)))
      then Inr (hp(buf fb := (hp (buf fb))[nat i := v]))
      else Inl (OutOfBounds i))"

text \<open>
  A \<^verbatim>\<open>uint16_t\<close> element \<open>i\<close> of the buffer is the two bytes \<open>2 i\<close> and \<open>2 i + 1\<close>, the
  low byte first: the file is built for the little-endian STM32 port (it includes
  \<^verbatim>\<open>ports/stm32/font_petme128_8x8.h\<close>).
\<close>

definition load16 :: "mp_obj_framebuf_t \<Rightarrow> int \<Rightarrow> heap \<Rightarrow> fault + 16 word" where
  "load16 fb i hp =
     (case load8 fb (2 * i) hp of
        Inl e \<Rightarrow> Inl e
      | Inr lo \<Rightarrow>
          (case load8 fb (2 * i + 1) hp of
             Inl e \<Rightarrow> Inl e
           | Inr hi \<Rightarrow> Inr (push_bit 8 (ucast hi) OR ucast lo)))"

definition store16 :: "mp_obj_framebuf_t \<Rightarrow> int \<Rightarrow> 16 word \<Rightarrow> heap \<Rightarrow> fault + heap" where
  "store16 fb i v hp =
     (case store8 fb (2 * i) (ucast v) hp of
        Inl e \<Rightarrow> Inl e
      | Inr hp' \<Rightarrow> store8 fb (2 * i + 1) (ucast (drop_bit 8 v)) hp')"

text \<open>\<^verbatim>\<open>memset(p, v, n)\<close> on the buffer, byte by byte from offset \<open>p\<close>.\<close>

fun memset :: "mp_obj_framebuf_t \<Rightarrow> int \<Rightarrow> byte \<Rightarrow> nat \<Rightarrow> heap \<Rightarrow> fault + heap" where
  "memset fb p v 0 hp = Inr hp"
| "memset fb p v (Suc n) hp =
     (case store8 fb p v hp of
        Inl e \<Rightarrow> Inl e
      | Inr hp' \<Rightarrow> memset fb (p + 1) v n hp')"

section \<open>The pixel formats\<close>

text \<open>
  The read-modify-write of one bit, \<^verbatim>\<open>(b & ~(0x01 << offset)) | ((col != 0) << offset)\<close>,
  stored back into a \<^verbatim>\<open>uint8_t\<close>: the truncation to eight bits commutes with the bitwise
  operations, so the expression is written on bytes.
\<close>

definition set_bit_to :: "byte \<Rightarrow> nat \<Rightarrow> 32 word \<Rightarrow> byte" where
  "set_bit_to b offset col =
     (b AND NOT (push_bit offset 1)) OR push_bit offset (of_bool (col \<noteq> 0))"

subsection \<open>MHLSB and MHMSB\<close>

definition mono_horiz_setpixel ::
  "mp_obj_framebuf_t \<Rightarrow> int \<Rightarrow> int \<Rightarrow> 32 word \<Rightarrow> heap \<Rightarrow> fault + heap" where
  "mono_horiz_setpixel fb x y col hp =
     (let index = drop_bit 3 (x + y * uint (stride fb));
          offset = (if format fb = FRAMEBUF_MHMSB then x AND 7 else 7 - (x AND 7))
      in case load8 fb index hp of
           Inl e \<Rightarrow> Inl e
         | Inr b \<Rightarrow> store8 fb index (set_bit_to b (nat offset) col) hp)"

definition mono_horiz_getpixel ::
  "mp_obj_framebuf_t \<Rightarrow> int \<Rightarrow> int \<Rightarrow> heap \<Rightarrow> fault + 32 word" where
  "mono_horiz_getpixel fb x y hp =
     (let index = drop_bit 3 (x + y * uint (stride fb));
          offset = (if format fb = FRAMEBUF_MHMSB then x AND 7 else 7 - (x AND 7))
      in case load8 fb index hp of
           Inl e \<Rightarrow> Inl e
         | Inr b \<Rightarrow> Inr (ucast (drop_bit (nat offset) b) AND 1))"

text \<open>
  The extents \<open>w\<close> and \<open>h\<close> of the format fills are natural numbers: the router passes
  extents that its guard and its clipping keep from being negative, and \<^verbatim>\<open>fill\<close> passes
  the unsigned 16-bit width and height, so no caller passes a negative one.
\<close>

fun mono_horiz_fill_col ::
  "mp_obj_framebuf_t \<Rightarrow> int \<Rightarrow> int \<Rightarrow> nat \<Rightarrow> 32 word \<Rightarrow> nat \<Rightarrow> heap \<Rightarrow> fault + heap" where
  "mono_horiz_fill_col fb b advance offset col 0 hp = Inr hp"
| "mono_horiz_fill_col fb b advance offset col (Suc hh) hp =
     (case load8 fb b hp of
        Inl e \<Rightarrow> Inl e
      | Inr v \<Rightarrow>
          (case store8 fb b (set_bit_to v offset col) hp of
             Inl e \<Rightarrow> Inl e
           | Inr hp' \<Rightarrow> mono_horiz_fill_col fb (b + advance) advance offset col hh hp'))"

fun mono_horiz_fill_rect ::
  "mp_obj_framebuf_t \<Rightarrow> int \<Rightarrow> int \<Rightarrow> nat \<Rightarrow> nat \<Rightarrow> 32 word \<Rightarrow> heap \<Rightarrow> fault + heap" where
  "mono_horiz_fill_rect fb x y 0 h col hp = Inr hp"
| "mono_horiz_fill_rect fb x y (Suc w) h col hp =
     (let advance = drop_bit 3 (uint (stride fb));
          offset = (if format fb = FRAMEBUF_MHMSB then x AND 7 else 7 - (x AND 7))
      in case mono_horiz_fill_col fb (drop_bit 3 x + y * advance) advance (nat offset) col h hp of
           Inl e \<Rightarrow> Inl e
         | Inr hp' \<Rightarrow> mono_horiz_fill_rect fb (x + 1) y w h col hp')"

subsection \<open>MVLSB\<close>

definition mvlsb_setpixel ::
  "mp_obj_framebuf_t \<Rightarrow> int \<Rightarrow> int \<Rightarrow> 32 word \<Rightarrow> heap \<Rightarrow> fault + heap" where
  "mvlsb_setpixel fb x y col hp =
     (let index = drop_bit 3 y * uint (stride fb) + x;
          offset = y AND 7
      in case load8 fb index hp of
           Inl e \<Rightarrow> Inl e
         | Inr b \<Rightarrow> store8 fb index (set_bit_to b (nat offset) col) hp)"

definition mvlsb_getpixel ::
  "mp_obj_framebuf_t \<Rightarrow> int \<Rightarrow> int \<Rightarrow> heap \<Rightarrow> fault + 32 word" where
  "mvlsb_getpixel fb x y hp =
     (case load8 fb (drop_bit 3 y * uint (stride fb) + x) hp of
        Inl e \<Rightarrow> Inl e
      | Inr b \<Rightarrow> Inr (ucast (drop_bit (nat (y AND 7)) b) AND 1))"

fun mvlsb_fill_row ::
  "mp_obj_framebuf_t \<Rightarrow> int \<Rightarrow> nat \<Rightarrow> 32 word \<Rightarrow> nat \<Rightarrow> heap \<Rightarrow> fault + heap" where
  "mvlsb_fill_row fb b offset col 0 hp = Inr hp"
| "mvlsb_fill_row fb b offset col (Suc ww) hp =
     (case load8 fb b hp of
        Inl e \<Rightarrow> Inl e
      | Inr v \<Rightarrow>
          (case store8 fb b (set_bit_to v offset col) hp of
             Inl e \<Rightarrow> Inl e
           | Inr hp' \<Rightarrow> mvlsb_fill_row fb (b + 1) offset col ww hp'))"

fun mvlsb_fill_rect ::
  "mp_obj_framebuf_t \<Rightarrow> int \<Rightarrow> int \<Rightarrow> nat \<Rightarrow> nat \<Rightarrow> 32 word \<Rightarrow> heap \<Rightarrow> fault + heap" where
  "mvlsb_fill_rect fb x y w 0 col hp = Inr hp"
| "mvlsb_fill_rect fb x y w (Suc h) col hp =
     (case mvlsb_fill_row fb (drop_bit 3 y * uint (stride fb) + x) (nat (y AND 7)) col w hp of
        Inl e \<Rightarrow> Inl e
      | Inr hp' \<Rightarrow> mvlsb_fill_rect fb x (y + 1) w h col hp')"

subsection \<open>RGB565\<close>

definition COL0 :: "32 word \<Rightarrow> 32 word \<Rightarrow> 32 word \<Rightarrow> 32 word" where
  "COL0 r g b = push_bit 11 (drop_bit 3 r) OR push_bit 5 (drop_bit 2 g) OR drop_bit 3 b"

definition COL :: "32 word \<Rightarrow> 32 word" where
  "COL c = COL0 (drop_bit 16 c AND 0xff) (drop_bit 8 c AND 0xff) (c AND 0xff)"

text \<open>The two lines that \<^verbatim>\<open>rgb565_setpixel\<close> and \<^verbatim>\<open>rgb565_fill_rect\<close> share.\<close>

definition rgb565_color :: "32 word \<Rightarrow> 16 word" where
  "rgb565_color col =
     (let c = COL col in ucast (push_bit 8 (c AND 0xff) OR (drop_bit 8 c AND 0xff)))"

definition rgb565_setpixel ::
  "mp_obj_framebuf_t \<Rightarrow> int \<Rightarrow> int \<Rightarrow> 32 word \<Rightarrow> heap \<Rightarrow> fault + heap" where
  "rgb565_setpixel fb x y col hp = store16 fb (x + y * uint (stride fb)) (rgb565_color col) hp"

definition rgb565_getpixel ::
  "mp_obj_framebuf_t \<Rightarrow> int \<Rightarrow> int \<Rightarrow> heap \<Rightarrow> fault + 32 word" where
  "rgb565_getpixel fb x y hp =
     (case load16 fb (x + y * uint (stride fb)) hp of
        Inl e \<Rightarrow> Inl e
      | Inr v \<Rightarrow> Inr (ucast v))"

fun rgb565_fill_row ::
  "mp_obj_framebuf_t \<Rightarrow> int \<Rightarrow> 16 word \<Rightarrow> nat \<Rightarrow> heap \<Rightarrow> fault + heap" where
  "rgb565_fill_row fb b color 0 hp = Inr hp"
| "rgb565_fill_row fb b color (Suc ww) hp =
     (case store16 fb b color hp of
        Inl e \<Rightarrow> Inl e
      | Inr hp' \<Rightarrow> rgb565_fill_row fb (b + 1) color ww hp')"

fun rgb565_fill_rows ::
  "mp_obj_framebuf_t \<Rightarrow> int \<Rightarrow> 16 word \<Rightarrow> nat \<Rightarrow> nat \<Rightarrow> heap \<Rightarrow> fault + heap" where
  "rgb565_fill_rows fb b color w 0 hp = Inr hp"
| "rgb565_fill_rows fb b color w (Suc h) hp =
     (case rgb565_fill_row fb b color w hp of
        Inl e \<Rightarrow> Inl e
      | Inr hp' \<Rightarrow>
          rgb565_fill_rows fb (b + int w + (uint (stride fb) - int w)) color w h hp')"

definition rgb565_fill_rect ::
  "mp_obj_framebuf_t \<Rightarrow> int \<Rightarrow> int \<Rightarrow> nat \<Rightarrow> nat \<Rightarrow> 32 word \<Rightarrow> heap \<Rightarrow> fault + heap" where
  "rgb565_fill_rect fb x y w h col hp =
     rgb565_fill_rows fb (x + y * uint (stride fb)) (rgb565_color col) w h hp"

subsection \<open>GS2_HMSB\<close>

definition gs2_hmsb_setpixel ::
  "mp_obj_framebuf_t \<Rightarrow> int \<Rightarrow> int \<Rightarrow> 32 word \<Rightarrow> heap \<Rightarrow> fault + heap" where
  "gs2_hmsb_setpixel fb x y col hp =
     (let pixel = drop_bit 2 (x + y * uint (stride fb));
          shift = nat (push_bit 1 (x AND 3));
          mask = (push_bit shift 3 :: byte);
          color = (ucast (push_bit shift (col AND 3)) :: byte)
      in case load8 fb pixel hp of
           Inl e \<Rightarrow> Inl e
         | Inr b \<Rightarrow> store8 fb pixel (color OR (b AND NOT mask)) hp)"

definition gs2_hmsb_getpixel ::
  "mp_obj_framebuf_t \<Rightarrow> int \<Rightarrow> int \<Rightarrow> heap \<Rightarrow> fault + 32 word" where
  "gs2_hmsb_getpixel fb x y hp =
     (case load8 fb (drop_bit 2 (x + y * uint (stride fb))) hp of
        Inl e \<Rightarrow> Inl e
      | Inr pixel \<Rightarrow> Inr (ucast (drop_bit (nat (push_bit 1 (x AND 3))) pixel) AND 3))"

text \<open>
  \<^verbatim>\<open>for (int yy=y; yy < y+h; yy++)\<close> inside \<^verbatim>\<open>for (int xx=x; xx < x+w; xx++)\<close>: each
  function counts the iterations that remain.
\<close>

fun gs2_hmsb_fill_col ::
  "mp_obj_framebuf_t \<Rightarrow> int \<Rightarrow> int \<Rightarrow> 32 word \<Rightarrow> nat \<Rightarrow> heap \<Rightarrow> fault + heap" where
  "gs2_hmsb_fill_col fb xx yy col 0 hp = Inr hp"
| "gs2_hmsb_fill_col fb xx yy col (Suc n) hp =
     (case gs2_hmsb_setpixel fb xx yy col hp of
        Inl e \<Rightarrow> Inl e
      | Inr hp' \<Rightarrow> gs2_hmsb_fill_col fb xx (yy + 1) col n hp')"

fun gs2_hmsb_fill_rect ::
  "mp_obj_framebuf_t \<Rightarrow> int \<Rightarrow> int \<Rightarrow> nat \<Rightarrow> nat \<Rightarrow> 32 word \<Rightarrow> heap \<Rightarrow> fault + heap" where
  "gs2_hmsb_fill_rect fb xx y 0 h col hp = Inr hp"
| "gs2_hmsb_fill_rect fb xx y (Suc n) h col hp =
     (case gs2_hmsb_fill_col fb xx y col h hp of
        Inl e \<Rightarrow> Inl e
      | Inr hp' \<Rightarrow> gs2_hmsb_fill_rect fb (xx + 1) y n h col hp')"

subsection \<open>GS4_HMSB\<close>

text \<open>C's \<^verbatim>\<open>%\<close> truncates towards zero: \<^term>\<open>(smod)\<close>.\<close>

definition gs4_hmsb_setpixel ::
  "mp_obj_framebuf_t \<Rightarrow> int \<Rightarrow> int \<Rightarrow> 32 word \<Rightarrow> heap \<Rightarrow> fault + heap" where
  "gs4_hmsb_setpixel fb x y col hp =
     (let pixel = drop_bit 1 (x + y * uint (stride fb))
      in case load8 fb pixel hp of
           Inl e \<Rightarrow> Inl e
         | Inr b \<Rightarrow>
             if x smod 2 \<noteq> 0
             then store8 fb pixel (((ucast col :: byte) AND 0x0f) OR (b AND 0xf0)) hp
             else store8 fb pixel (push_bit 4 (ucast col :: byte) OR (b AND 0x0f)) hp)"

definition gs4_hmsb_getpixel ::
  "mp_obj_framebuf_t \<Rightarrow> int \<Rightarrow> int \<Rightarrow> heap \<Rightarrow> fault + 32 word" where
  "gs4_hmsb_getpixel fb x y hp =
     (case load8 fb (drop_bit 1 (x + y * uint (stride fb))) hp of
        Inl e \<Rightarrow> Inl e
      | Inr b \<Rightarrow> if x smod 2 \<noteq> 0 then Inr (ucast (b AND 0x0f)) else Inr (ucast (drop_bit 4 b)))"

text \<open>One pass of the \<^verbatim>\<open>while (h--)\<close> body: the new \<^verbatim>\<open>pixel_pair\<close> and the new store.\<close>

definition gs4_hmsb_fill_line ::
  "mp_obj_framebuf_t \<Rightarrow> int \<Rightarrow> 32 word \<Rightarrow> nat \<Rightarrow> bool \<Rightarrow> int \<Rightarrow> heap \<Rightarrow> fault + (int \<times> heap)" where
  "gs4_hmsb_fill_line fb pixel_pair col w odd_x pixel_count_till_next_line hp =
     (let col_shifted_left = (ucast (push_bit 4 col) :: byte);
          col_pixel_pair = col_shifted_left OR ucast col
      in case (if odd_x \<and> w > 0
               then (case load8 fb pixel_pair hp of
                       Inl e \<Rightarrow> Inl e
                     | Inr b \<Rightarrow>
                         (case store8 fb pixel_pair ((b AND 0xf0) OR ucast col) hp of
                            Inl e \<Rightarrow> Inl e
                          | Inr hp1 \<Rightarrow> Inr (pixel_pair + 1, w - 1, hp1)))
               else Inr (pixel_pair, w, hp)) of
           Inl e \<Rightarrow> Inl e
         | Inr (pp1, ww, hp1) \<Rightarrow>
             (case memset fb pp1 col_pixel_pair (drop_bit 1 ww) hp1 of
                Inl e \<Rightarrow> Inl e
              | Inr hp2 \<Rightarrow>
                  (let pp2 = pp1 + int (drop_bit 1 ww)
                   in if ww mod 2 \<noteq> 0
                      then (case load8 fb pp2 hp2 of
                              Inl e \<Rightarrow> Inl e
                            | Inr b \<Rightarrow>
                                (case store8 fb pp2 (col_shifted_left OR (b AND 0x0f)) hp2 of
                                   Inl e \<Rightarrow> Inl e
                                 | Inr hp3 \<Rightarrow>
                                     Inr ((if \<not> odd_x then pp2 + 1 else pp2)
                                            + pixel_count_till_next_line, hp3)))
                      else Inr (pp2 + pixel_count_till_next_line, hp2))))"

fun gs4_hmsb_fill_lines ::
  "mp_obj_framebuf_t \<Rightarrow> int \<Rightarrow> 32 word \<Rightarrow> nat \<Rightarrow> bool \<Rightarrow> int \<Rightarrow> nat \<Rightarrow> heap \<Rightarrow> fault + heap" where
  "gs4_hmsb_fill_lines fb pixel_pair col w odd_x skip 0 hp = Inr hp"
| "gs4_hmsb_fill_lines fb pixel_pair col w odd_x skip (Suc h) hp =
     (case gs4_hmsb_fill_line fb pixel_pair col w odd_x skip hp of
        Inl e \<Rightarrow> Inl e
      | Inr (pp, hp') \<Rightarrow> gs4_hmsb_fill_lines fb pp col w odd_x skip h hp')"

definition gs4_hmsb_fill_rect ::
  "mp_obj_framebuf_t \<Rightarrow> int \<Rightarrow> int \<Rightarrow> nat \<Rightarrow> nat \<Rightarrow> 32 word \<Rightarrow> heap \<Rightarrow> fault + heap" where
  "gs4_hmsb_fill_rect fb x y w h col hp =
     gs4_hmsb_fill_lines fb (drop_bit 1 (x + y * uint (stride fb))) (col AND 0x0f) w
       (x smod 2 = 1) (drop_bit 1 (uint (stride fb) - int w)) h hp"

subsection \<open>GS8 (the PL8 format)\<close>

definition gs8_setpixel ::
  "mp_obj_framebuf_t \<Rightarrow> int \<Rightarrow> int \<Rightarrow> 32 word \<Rightarrow> heap \<Rightarrow> fault + heap" where
  "gs8_setpixel fb x y col hp = store8 fb (x + y * uint (stride fb)) (ucast (col AND 0xff)) hp"

definition gs8_getpixel ::
  "mp_obj_framebuf_t \<Rightarrow> int \<Rightarrow> int \<Rightarrow> heap \<Rightarrow> fault + 32 word" where
  "gs8_getpixel fb x y hp =
     (case load8 fb (x + y * uint (stride fb)) hp of
        Inl e \<Rightarrow> Inl e
      | Inr b \<Rightarrow> Inr (ucast b))"

fun gs8_fill_rows ::
  "mp_obj_framebuf_t \<Rightarrow> int \<Rightarrow> 32 word \<Rightarrow> nat \<Rightarrow> nat \<Rightarrow> heap \<Rightarrow> fault + heap" where
  "gs8_fill_rows fb pixel col w 0 hp = Inr hp"
| "gs8_fill_rows fb pixel col w (Suc h) hp =
     (case memset fb pixel (ucast col) w hp of
        Inl e \<Rightarrow> Inl e
      | Inr hp' \<Rightarrow> gs8_fill_rows fb (pixel + uint (stride fb)) col w h hp')"

definition gs8_fill_rect ::
  "mp_obj_framebuf_t \<Rightarrow> int \<Rightarrow> int \<Rightarrow> nat \<Rightarrow> nat \<Rightarrow> 32 word \<Rightarrow> heap \<Rightarrow> fault + heap" where
  "gs8_fill_rect fb x y w h col hp = gs8_fill_rows fb (x + y * uint (stride fb)) col w h hp"

section \<open>The dispatch table and the clipped router\<close>

fun setpixel ::
  "mp_obj_framebuf_t \<Rightarrow> int \<Rightarrow> int \<Rightarrow> 32 word \<Rightarrow> heap \<Rightarrow> fault + heap" where
  "setpixel fb x y col hp =
     (case format fb of
        FRAMEBUF_MVLSB \<Rightarrow> mvlsb_setpixel fb x y col hp
      | FRAMEBUF_RGB565 \<Rightarrow> rgb565_setpixel fb x y col hp
      | FRAMEBUF_GS2_HMSB \<Rightarrow> gs2_hmsb_setpixel fb x y col hp
      | FRAMEBUF_GS4_HMSB \<Rightarrow> gs4_hmsb_setpixel fb x y col hp
      | FRAMEBUF_PL8 \<Rightarrow> gs8_setpixel fb x y col hp
      | FRAMEBUF_MHLSB \<Rightarrow> mono_horiz_setpixel fb x y col hp
      | FRAMEBUF_MHMSB \<Rightarrow> mono_horiz_setpixel fb x y col hp)"

fun getpixel :: "mp_obj_framebuf_t \<Rightarrow> int \<Rightarrow> int \<Rightarrow> heap \<Rightarrow> fault + 32 word" where
  "getpixel fb x y hp =
     (case format fb of
        FRAMEBUF_MVLSB \<Rightarrow> mvlsb_getpixel fb x y hp
      | FRAMEBUF_RGB565 \<Rightarrow> rgb565_getpixel fb x y hp
      | FRAMEBUF_GS2_HMSB \<Rightarrow> gs2_hmsb_getpixel fb x y hp
      | FRAMEBUF_GS4_HMSB \<Rightarrow> gs4_hmsb_getpixel fb x y hp
      | FRAMEBUF_PL8 \<Rightarrow> gs8_getpixel fb x y hp
      | FRAMEBUF_MHLSB \<Rightarrow> mono_horiz_getpixel fb x y hp
      | FRAMEBUF_MHMSB \<Rightarrow> mono_horiz_getpixel fb x y hp)"

text \<open>\<^verbatim>\<open>formats[fb->format].fill_rect\<close>, the fill of the format's table entry.\<close>

fun formats_fill_rect ::
  "mp_obj_framebuf_t \<Rightarrow> int \<Rightarrow> int \<Rightarrow> nat \<Rightarrow> nat \<Rightarrow> 32 word \<Rightarrow> heap \<Rightarrow> fault + heap" where
  "formats_fill_rect fb x y w h col hp =
     (case format fb of
        FRAMEBUF_MVLSB \<Rightarrow> mvlsb_fill_rect fb x y w h col hp
      | FRAMEBUF_RGB565 \<Rightarrow> rgb565_fill_rect fb x y w h col hp
      | FRAMEBUF_GS2_HMSB \<Rightarrow> gs2_hmsb_fill_rect fb x y w h col hp
      | FRAMEBUF_GS4_HMSB \<Rightarrow> gs4_hmsb_fill_rect fb x y w h col hp
      | FRAMEBUF_PL8 \<Rightarrow> gs8_fill_rect fb x y w h col hp
      | FRAMEBUF_MHLSB \<Rightarrow> mono_horiz_fill_rect fb x y w h col hp
      | FRAMEBUF_MHMSB \<Rightarrow> mono_horiz_fill_rect fb x y w h col hp)"

text \<open>
  The value that a 32-bit \<^verbatim>\<open>int\<close> holds after an addition whose exact result is \<open>k\<close>:
  the result itself when it lies in \<open>[-2^31, 2^31)\<close>, and the result wrapped around
  modulo \<open>2^32\<close> otherwise, as the add instruction of the target leaves it.
\<close>

definition int32 :: "int \<Rightarrow> int" where
  "int32 k = (k + 2 ^ 31) mod 2 ^ 32 - 2 ^ 31"

text \<open>
  The router \<^verbatim>\<open>fill_rect\<close>; its arguments are 32-bit \<^verbatim>\<open>int\<close> values and its two sums
  are 32-bit additions. For such arguments \<open>xend - x\<close> and \<open>yend - y\<close> are not negative
  after the guard, so their conversion to the natural extents of the format fill loses
  nothing.
\<close>

definition fill_rect ::
  "mp_obj_framebuf_t \<Rightarrow> int \<Rightarrow> int \<Rightarrow> int \<Rightarrow> int \<Rightarrow> 32 word \<Rightarrow> heap \<Rightarrow> fault + heap" where
  "fill_rect fb x y w h col hp =
     (if h < 1 \<or> w < 1 \<or> int32 (x + w) \<le> 0 \<or> int32 (y + h) \<le> 0
         \<or> y \<ge> uint (height fb) \<or> x \<ge> uint (width fb)
      then Inr hp
      else
        (let xend = min (uint (width fb)) (int32 (x + w));
             yend = min (uint (height fb)) (int32 (y + h));
             x = max x 0;
             y = max y 0
         in formats_fill_rect fb x y (nat (xend - x)) (nat (yend - y)) col hp))"

section \<open>Construction\<close>

datatype mp_error = ValueError string

text \<open>The format constants of the \<^verbatim>\<open>#define\<close> lines.\<close>

fun format_id :: "format \<Rightarrow> 8 word" where
  "format_id FRAMEBUF_MVLSB = 0"
| "format_id FRAMEBUF_RGB565 = 1"
| "format_id FRAMEBUF_GS2_HMSB = 5"
| "format_id FRAMEBUF_GS4_HMSB = 2"
| "format_id FRAMEBUF_PL8 = 6"
| "format_id FRAMEBUF_MHLSB = 3"
| "format_id FRAMEBUF_MHMSB = 4"

text \<open>
  \<^verbatim>\<open>framebuf_make_new\<close>: the arguments after the buffer are the \<^verbatim>\<open>mp_int_t\<close> values of
  \<^verbatim>\<open>mp_obj_get_int\<close>; the assignments to the \<^verbatim>\<open>uint16_t\<close> and \<^verbatim>\<open>uint8_t\<close> fields
  truncate them. The stride argument is optional.
\<close>

definition framebuf_make_new ::
  "nat \<Rightarrow> int \<Rightarrow> int \<Rightarrow> int \<Rightarrow> int option \<Rightarrow> mp_error + mp_obj_framebuf_t" where
  "framebuf_make_new buf_obj w h f s =
     (let o_width = (word_of_int w :: 16 word);
          o_height = (word_of_int h :: 16 word);
          o_format = (word_of_int f :: 8 word);
          o_stride = (case s of Some n \<Rightarrow> (word_of_int n :: 16 word) | None \<Rightarrow> o_width);
          mk = (\<lambda>fmt st. Inr \<lparr>buf = buf_obj, width = o_width, height = o_height,
                               stride = st, format = fmt\<rparr>)
      in if o_format = format_id FRAMEBUF_MVLSB then mk FRAMEBUF_MVLSB o_stride
         else if o_format = format_id FRAMEBUF_RGB565 then mk FRAMEBUF_RGB565 o_stride
         else if o_format = format_id FRAMEBUF_MHLSB
           then mk FRAMEBUF_MHLSB ((o_stride + 7) AND NOT 7)
         else if o_format = format_id FRAMEBUF_MHMSB
           then mk FRAMEBUF_MHMSB ((o_stride + 7) AND NOT 7)
         else if o_format = format_id FRAMEBUF_GS2_HMSB
           then mk FRAMEBUF_GS2_HMSB ((o_stride + 3) AND NOT 3)
         else if o_format = format_id FRAMEBUF_GS4_HMSB
           then mk FRAMEBUF_GS4_HMSB ((o_stride + 1) AND NOT 1)
         else if o_format = format_id FRAMEBUF_PL8 then mk FRAMEBUF_PL8 o_stride
         else Inl (ValueError ''invalid format''))"

text \<open>\<^verbatim>\<open>framebuf_get_buffer\<close>: the byte length the object declares for its buffer.\<close>

definition framebuf_get_buffer_len :: "mp_obj_framebuf_t \<Rightarrow> int" where
  "framebuf_get_buffer_len self =
     uint (stride self) * uint (height self) * (if format self = FRAMEBUF_RGB565 then 2 else 1)"

section \<open>The drawing methods\<close>

text \<open>
  \<^verbatim>\<open>framebuf_pixel\<close>: with three arguments it reads (the colour is \<open>None\<close>), with four it
  writes. The result is the returned object, \<open>None\<close> for \<^verbatim>\<open>mp_const_none\<close>, and the store.
\<close>

definition framebuf_pixel ::
  "mp_obj_framebuf_t \<Rightarrow> int \<Rightarrow> int \<Rightarrow> int option \<Rightarrow> heap \<Rightarrow> fault + (int option \<times> heap)" where
  "framebuf_pixel self x y col hp =
     (if 0 \<le> x \<and> x < uint (width self) \<and> 0 \<le> y \<and> y < uint (height self)
      then (case col of
              None \<Rightarrow>
                (case getpixel self x y hp of
                   Inl e \<Rightarrow> Inl e
                 | Inr v \<Rightarrow> Inr (Some (uint v), hp))
            | Some c \<Rightarrow>
                (case setpixel self x y (word_of_int c) hp of
                   Inl e \<Rightarrow> Inl e
                 | Inr hp' \<Rightarrow> Inr (None, hp')))
      else Inr (None, hp))"

text \<open>The calls a method makes one after the other; the first fault ends the method.\<close>

fun setpixel_seq ::
  "mp_obj_framebuf_t \<Rightarrow> (int \<times> int) list \<Rightarrow> 32 word \<Rightarrow> heap \<Rightarrow> fault + heap" where
  "setpixel_seq fb [] col hp = Inr hp"
| "setpixel_seq fb ((x, y) # ps) col hp =
     (case setpixel fb x y col hp of
        Inl e \<Rightarrow> Inl e
      | Inr hp' \<Rightarrow> setpixel_seq fb ps col hp')"

fun fill_rect_seq ::
  "mp_obj_framebuf_t \<Rightarrow> (int \<times> int \<times> int \<times> int) list \<Rightarrow> 32 word \<Rightarrow> heap \<Rightarrow> fault + heap" where
  "fill_rect_seq fb [] col hp = Inr hp"
| "fill_rect_seq fb ((x, y, w, h) # rs) col hp =
     (case fill_rect fb x y w h col hp of
        Inl e \<Rightarrow> Inl e
      | Inr hp' \<Rightarrow> fill_rect_seq fb rs col hp')"

subsection \<open>blit\<close>

text \<open>
  The inner and the outer \<^verbatim>\<open>for\<close> loop of \<^verbatim>\<open>framebuf_blit\<close>; \<open>key\<close> is
  \<^verbatim>\<open>(uint32_t)key\<close>.
\<close>

function blit_row ::
  "mp_obj_framebuf_t \<Rightarrow> mp_obj_framebuf_t \<Rightarrow> 32 word \<Rightarrow> int \<Rightarrow> int \<Rightarrow> int \<Rightarrow> int \<Rightarrow> int
     \<Rightarrow> heap \<Rightarrow> fault + heap" where
  "blit_row self source key y0 y1 x0end cx0 cx1 hp =
     (if cx0 < x0end
      then (case getpixel source cx1 y1 hp of
              Inl e \<Rightarrow> Inl e
            | Inr col \<Rightarrow>
                (case (if col \<noteq> key then setpixel self cx0 y0 col hp else Inr hp) of
                   Inl e \<Rightarrow> Inl e
                 | Inr hp' \<Rightarrow> blit_row self source key y0 y1 x0end (cx0 + 1) (cx1 + 1) hp'))
      else Inr hp)"
  by pat_completeness auto
termination
  by (relation "measure (\<lambda>(self, source, key, y0, y1, x0end, cx0, cx1, hp). nat (x0end - cx0))")
    auto

function blit_rows ::
  "mp_obj_framebuf_t \<Rightarrow> mp_obj_framebuf_t \<Rightarrow> 32 word \<Rightarrow> int \<Rightarrow> int \<Rightarrow> int \<Rightarrow> int \<Rightarrow> int
     \<Rightarrow> int \<Rightarrow> heap \<Rightarrow> fault + heap" where
  "blit_rows self source key x0 x1 x0end y0end y0 y1 hp =
     (if y0 < y0end
      then (case blit_row self source key y0 y1 x0end x0 x1 hp of
              Inl e \<Rightarrow> Inl e
            | Inr hp' \<Rightarrow> blit_rows self source key x0 x1 x0end y0end (y0 + 1) (y1 + 1) hp')
      else Inr hp)"
  by pat_completeness auto
termination
  by (relation
      "measure (\<lambda>(self, source, key, x0, x1, x0end, y0end, y0, y1, hp). nat (y0end - y0))")
    auto

text \<open>The key argument is optional; without it \<^verbatim>\<open>key\<close> stays \<open>-1\<close>.\<close>

definition framebuf_blit ::
  "mp_obj_framebuf_t \<Rightarrow> mp_obj_framebuf_t \<Rightarrow> int \<Rightarrow> int \<Rightarrow> int option \<Rightarrow> heap \<Rightarrow> fault + heap" where
  "framebuf_blit self source x y key_arg hp =
     (let key = (case key_arg of None \<Rightarrow> - 1 | Some k \<Rightarrow> k)
      in if x \<ge> uint (width self) \<or> y \<ge> uint (height self)
            \<or> - x \<ge> uint (width source) \<or> - y \<ge> uint (height source)
         then Inr hp
         else
           (let x0 = max 0 x;
                y0 = max 0 y;
                x1 = max 0 (- x);
                y1 = max 0 (- y);
                x0end = min (uint (width self)) (x + uint (width source));
                y0end = min (uint (height self)) (y + uint (height source))
            in blit_rows self source (word_of_int key) x0 x1 x0end y0end y0 y1 hp))"

subsection \<open>scroll\<close>

text \<open>
  The loops of \<^verbatim>\<open>framebuf_scroll\<close> test \<^verbatim>\<open>x != xend\<close> and \<^verbatim>\<open>y != yend\<close>, so they need
  not end: the result is an option, \<open>None\<close> when the loop runs for ever.
\<close>

definition scroll_pixel ::
  "mp_obj_framebuf_t \<Rightarrow> int \<Rightarrow> int \<Rightarrow> int \<Rightarrow> int \<Rightarrow> heap \<Rightarrow> fault + heap" where
  "scroll_pixel self xstep ystep x y hp =
     (case getpixel self (x - xstep) (y - ystep) hp of
        Inl e \<Rightarrow> Inl e
      | Inr col \<Rightarrow> setpixel self x y col hp)"

partial_function (option) scroll_row ::
  "mp_obj_framebuf_t \<Rightarrow> int \<Rightarrow> int \<Rightarrow> int \<Rightarrow> int \<Rightarrow> int \<Rightarrow> int \<Rightarrow> heap \<Rightarrow> (fault + heap) option"
  where
  "scroll_row self xstep ystep xend dx y x hp =
     (if x \<noteq> xend
      then (case scroll_pixel self xstep ystep x y hp of
              Inl e \<Rightarrow> Some (Inl e)
            | Inr hp' \<Rightarrow> scroll_row self xstep ystep xend dx y (x + dx) hp')
      else Some (Inr hp))"

partial_function (option) scroll_rows ::
  "mp_obj_framebuf_t \<Rightarrow> int \<Rightarrow> int \<Rightarrow> int \<Rightarrow> int \<Rightarrow> int \<Rightarrow> int \<Rightarrow> int \<Rightarrow> int \<Rightarrow> heap
     \<Rightarrow> (fault + heap) option"
  where
  "scroll_rows self xstep ystep sx xend dx yend dy y hp =
     (if y \<noteq> yend
      then (case scroll_row self xstep ystep xend dx y sx hp of
              None \<Rightarrow> None
            | Some (Inl e) \<Rightarrow> Some (Inl e)
            | Some (Inr hp') \<Rightarrow> scroll_rows self xstep ystep sx xend dx yend dy (y + dy) hp')
      else Some (Inr hp))"

definition framebuf_scroll ::
  "mp_obj_framebuf_t \<Rightarrow> int \<Rightarrow> int \<Rightarrow> heap \<Rightarrow> (fault + heap) option" where
  "framebuf_scroll self xstep ystep hp =
     (let (sx, xend, dx) =
            (if xstep < 0 then (0, uint (width self) + xstep, 1)
             else (uint (width self) - 1, xstep - 1, - 1));
          (y, yend, dy) =
            (if ystep < 0 then (0, uint (height self) + ystep, 1)
             else (uint (height self) - 1, ystep - 1, - 1))
      in scroll_rows self xstep ystep sx xend dx yend dy y hp)"

subsection \<open>circle\<close>

function circle_loop ::
  "mp_obj_framebuf_t \<Rightarrow> int \<Rightarrow> int \<Rightarrow> 32 word \<Rightarrow> bool \<Rightarrow> int \<Rightarrow> int \<Rightarrow> int \<Rightarrow> int \<Rightarrow> int
     \<Rightarrow> heap \<Rightarrow> fault + heap" where
  "circle_loop self x0 y0 col fill f ddF_x ddF_y x y hp =
     (if x < y
      then
        (let (y, ddF_y, f) = (if f \<ge> 0 then (y - 1, ddF_y + 2, f + (ddF_y + 2))
                               else (y, ddF_y, f));
             x = x + 1;
             ddF_x = ddF_x + 2;
             f = f + ddF_x
         in case (if fill
                  then fill_rect_seq self
                         [(x0 + x, y0 - y, 1, 2 * y + 1),
                          (x0 + y, y0 - x, 1, 2 * x + 1),
                          (x0 - x, y0 - y, 1, 2 * y + 1),
                          (x0 - y, y0 - x, 1, 2 * x + 1)] col hp
                  else setpixel_seq self
                         [(x0 + x, y0 + y), (x0 - x, y0 + y),
                          (x0 + x, y0 - y), (x0 - x, y0 - y),
                          (x0 + y, y0 + x), (x0 - y, y0 + x),
                          (x0 + y, y0 - x), (x0 - y, y0 - x)] col hp) of
              Inl e \<Rightarrow> Inl e
            | Inr hp' \<Rightarrow> circle_loop self x0 y0 col fill f ddF_x ddF_y x y hp')
      else Inr hp)"
  by pat_completeness auto
termination
  by (relation
      "measure (\<lambda>(self, x0, y0, col, fill, f, ddF_x, ddF_y, x, y, hp). nat (y - x))")
    (auto split: if_splits)

text \<open>The fill argument is optional; without it \<^verbatim>\<open>fill\<close> stays 0.\<close>

definition framebuf_circle ::
  "mp_obj_framebuf_t \<Rightarrow> int \<Rightarrow> int \<Rightarrow> int \<Rightarrow> int \<Rightarrow> int option \<Rightarrow> heap \<Rightarrow> fault + heap" where
  "framebuf_circle self x0 y0 r col fill_arg hp =
     (let fill = ((case fill_arg of None \<Rightarrow> 0 | Some v \<Rightarrow> v) \<noteq> 0)
      in case (if fill then fill_rect self x0 (y0 - r) 1 (2 * r + 1) (word_of_int col) hp
               else Inr hp) of
           Inl e \<Rightarrow> Inl e
         | Inr hp' \<Rightarrow>
             circle_loop self x0 y0 (word_of_int col) fill (1 - r) 1 (- 2 * r) 0 r hp')"

section \<open>The GIF frame renderer and the animation loop\<close>

text \<open>
  \<^verbatim>\<open>gif.h\<close> is not part of the sources at hand, so the record below holds the fields
  of \<^verbatim>\<open>gif89a\<close> that \<^verbatim>\<open>gif_dispimage\<close> reads, named by their access paths. Entry \<open>i\<close> of
  the colour table is \<open>colortbl g i\<close>; the index is an integer because the program also
  reads the word before the table when a row is empty.
\<close>

record gif89a =
  gifISD_width :: "16 word"
  gifISD_height :: "16 word"
  gifISD_flag :: "8 word"
  gifLSD_bkcindex :: "8 word"
  colortbl :: "int \<Rightarrow> 32 word"
  numcolors :: "16 word"

text \<open>
  The LZW decoder is the source of the palette indices: \<^verbatim>\<open>gif_dispimage\<close> takes each
  \<^verbatim>\<open>Index\<close> from the decompression stack or from \<^verbatim>\<open>gif_getnextbyte\<close>. The renderer is
  modelled over the sequence of values the decoder yields, in order (\<open>-2\<close> is the end
  code, another negative value an error); when the sequence is used up the decoder has
  no data left and yields its error value \<open>-1\<close>.
\<close>

definition next_index :: "int list \<Rightarrow> int \<times> int list" where
  "next_index codes = (case codes of [] \<Rightarrow> (- 1, []) | c # cs \<Rightarrow> (c, cs))"

datatype row_exit = Returned "8 word" | RowDone int int int "int list"

text \<open>
  The \<^verbatim>\<open>for(XPos=x0;XPos<=XEnd;XPos++)\<close> loop of one row. \<open>Returned r\<close> is a
  \<^verbatim>\<open>return r\<close> from inside the loop; \<open>RowDone XPos Cnt OldIndex codes\<close> is the state
  when the loop ends.
\<close>

function gif_row ::
  "mp_obj_framebuf_t \<Rightarrow> gif89a \<Rightarrow> int \<Rightarrow> 8 word \<Rightarrow> int \<Rightarrow> int \<Rightarrow> int \<Rightarrow> int \<Rightarrow> int \<Rightarrow> int list
     \<Rightarrow> heap \<Rightarrow> fault + (row_exit \<times> heap)" where
  "gif_row fb gif Transparency Disposal YPos XEnd XPos Cnt OldIndex codes hp =
     (if XPos \<le> XEnd
      then
        (let (Index, codes') = next_index codes;
             bkcolor = colortbl gif (uint (gifLSD_bkcindex gif))
         in if Index = - 2 then Inr (Returned 0, hp)
            else if Index < 0 \<or> Index \<ge> uint (numcolors gif) then Inr (Returned 1, hp)
            else if Index = OldIndex \<and> XPos \<le> XEnd
              then gif_row fb gif Transparency Disposal YPos XEnd (XPos + 1) (Cnt + 1) Index
                     codes' hp
            else
              (case (if Cnt \<noteq> 0
                     then (if OldIndex \<noteq> Transparency
                           then fill_rect fb (XPos - Cnt - 1) YPos (Cnt + 1) 1
                                  (colortbl gif OldIndex) hp
                           else if Disposal = 2
                           then fill_rect fb (XPos - Cnt - 1) YPos (Cnt + 1) 1
                                  (colortbl gif OldIndex) hp
                           else Inr hp)
                     else (if OldIndex \<ge> 0
                           then (if OldIndex \<noteq> Transparency
                                 then setpixel fb (XPos - 1) YPos (colortbl gif OldIndex) hp
                                 else if Disposal = 2
                                 then setpixel fb (XPos - 1) YPos bkcolor hp
                                 else Inr hp)
                           else Inr hp)) of
                 Inl e \<Rightarrow> Inl e
               | Inr hp' \<Rightarrow>
                   gif_row fb gif Transparency Disposal YPos XEnd (XPos + 1) 0 Index codes' hp'))
      else Inr (RowDone XPos Cnt OldIndex codes, hp))"
  by pat_completeness auto
termination
  by (relation
      "measure (\<lambda>(fb, gif, Transparency, Disposal, YPos, XEnd, XPos, Cnt, OldIndex, codes, hp).
         nat (XEnd + 1 - XPos))")
    auto

text \<open>The statements between the row loop and the interlace adjustment.\<close>

definition gif_row_flush ::
  "mp_obj_framebuf_t \<Rightarrow> gif89a \<Rightarrow> int \<Rightarrow> 8 word \<Rightarrow> int \<Rightarrow> int \<Rightarrow> int \<Rightarrow> int \<Rightarrow> int \<Rightarrow> heap
     \<Rightarrow> fault + heap" where
  "gif_row_flush fb gif Transparency Disposal YPos XEnd XPos Cnt OldIndex hp =
     (if OldIndex \<noteq> Transparency \<or> Disposal = 2
      then
        (let bkcolor = colortbl gif (uint (gifLSD_bkcindex gif));
             ColorIndex = (if OldIndex \<noteq> Transparency then colortbl gif OldIndex else bkcolor)
         in if Cnt \<noteq> 0 then fill_rect fb (XPos - Cnt - 1) YPos (Cnt + 1) 1 ColorIndex hp
            else setpixel fb XEnd YPos ColorIndex hp)
      else Inr hp)"

text \<open>
  The tables \<^verbatim>\<open>_aInterlaceOffset\<close> and \<^verbatim>\<open>_aInterlaceYPos\<close> have four entries. The program
  reads entry \<^verbatim>\<open>Pass\<close> also when \<^verbatim>\<open>Pass\<close> has become 4; \<open>past\<close> stands for the bytes
  that follow the table in memory.
\<close>

definition aInterlaceOffset :: "(nat \<Rightarrow> int) \<Rightarrow> nat \<Rightarrow> int" where
  "aInterlaceOffset past i = (if i < 4 then [8, 8, 4, 2] ! i else past i)"

definition aInterlaceYPos :: "(nat \<Rightarrow> int) \<Rightarrow> nat \<Rightarrow> int" where
  "aInterlaceYPos past i = (if i < 4 then [0, 4, 2, 1] ! i else past i)"

text \<open>The \<^verbatim>\<open>for(YCnt=0,YPos=y0,Pass=0;YCnt<Height;YCnt++)\<close> loop.\<close>

function gif_rows ::
  "mp_obj_framebuf_t \<Rightarrow> gif89a \<Rightarrow> (nat \<Rightarrow> int) \<Rightarrow> int \<Rightarrow> int \<Rightarrow> int \<Rightarrow> 8 word \<Rightarrow> int \<Rightarrow> int
     \<Rightarrow> nat \<Rightarrow> int list \<Rightarrow> heap \<Rightarrow> fault + (8 word \<times> heap)" where
  "gif_rows fb gif past x0 y0 Transparency Disposal YCnt YPos Pass codes hp =
     (let Height = uint (gifISD_height gif);
          XEnd = uint (gifISD_width gif) + x0 - 1;
          Interlace = gifISD_flag gif AND 0x40
      in if YCnt < Height
         then
           (case gif_row fb gif Transparency Disposal YPos XEnd x0 0 (- 1) codes hp of
              Inl e \<Rightarrow> Inl e
            | Inr (Returned r, hp1) \<Rightarrow> Inr (r, hp1)
            | Inr (RowDone XPos Cnt OldIndex codes', hp1) \<Rightarrow>
                (case gif_row_flush fb gif Transparency Disposal YPos XEnd XPos Cnt OldIndex hp1 of
                   Inl e \<Rightarrow> Inl e
                 | Inr hp2 \<Rightarrow>
                     (let (YPos', Pass') =
                            (if Interlace \<noteq> 0
                             then (let YPos1 = YPos + aInterlaceOffset past Pass
                                   in if YPos1 - y0 \<ge> Height
                                      then (aInterlaceYPos past (Pass + 1) + y0, Pass + 1)
                                      else (YPos1, Pass))
                             else (YPos + 1, Pass))
                      in gif_rows fb gif past x0 y0 Transparency Disposal (YCnt + 1) YPos' Pass'
                           codes' hp2)))
         else Inr (0, hp))"
  by pat_completeness auto
termination
  by (relation
      "measure (\<lambda>(fb, gif, past, x0, y0, Transparency, Disposal, YCnt, YPos, Pass, codes, hp).
         nat (uint (gifISD_height gif) - YCnt))")
    auto

text \<open>
  \<^verbatim>\<open>gif_dispimage\<close>, from the first row on: \<open>x0\<close> and \<open>y0\<close> are its \<^verbatim>\<open>uint16_t\<close>
  parameters, \<open>fb\<close> is the framebuffer behind the global \<^verbatim>\<open>_fb\<close>, \<open>codes\<close> is what the
  decoder yields after \<^verbatim>\<open>gif_initlzw\<close>.
\<close>

definition gif_dispimage ::
  "mp_obj_framebuf_t \<Rightarrow> gif89a \<Rightarrow> (nat \<Rightarrow> int) \<Rightarrow> 16 word \<Rightarrow> 16 word \<Rightarrow> int \<Rightarrow> 8 word
     \<Rightarrow> int list \<Rightarrow> heap \<Rightarrow> fault + (8 word \<times> heap)" where
  "gif_dispimage fb gif past x0 y0 Transparency Disposal codes hp =
     gif_rows fb gif past (uint x0) (uint y0) Transparency Disposal 0 (uint y0) 0 codes hp"

subsection \<open>The pause after a frame\<close>

text \<open>
  In \<^verbatim>\<open>framebuf_loadgif\<close>, after a frame: \<^verbatim>\<open>if(delay)dtime=delay; else dtime=10;\<close> and
  \<^verbatim>\<open>while(dtime--&&gifdecoding)mp_hal_delay_ms(10);\<close>. The delay comes from two bytes of
  the graphic control extension and \<^verbatim>\<open>dtime\<close> is a \<^verbatim>\<open>uint16_t\<close>. The flag
  \<^verbatim>\<open>gifdecoding\<close> is a global that \<^verbatim>\<open>gif_quit\<close> clears; what happens to it while the
  HAL waits is the parameter \<open>hal\<close>: \<open>hal n g\<close> is the flag when call number \<open>n\<close> of
  \<^verbatim>\<open>mp_hal_delay_ms(10)\<close> returns, \<open>g\<close> being the flag at the call. The loop returns the
  number of calls it made and the flag.
\<close>

definition loadgif_dtime :: "16 word \<Rightarrow> 16 word" where
  "loadgif_dtime delay = (if delay \<noteq> 0 then delay else 10)"

function loadgif_delay_loop ::
  "(nat \<Rightarrow> 8 word \<Rightarrow> 8 word) \<Rightarrow> 16 word \<Rightarrow> nat \<Rightarrow> 8 word \<Rightarrow> nat \<times> 8 word" where
  "loadgif_delay_loop hal dtime calls gifdecoding =
     (if dtime \<noteq> 0 \<and> gifdecoding \<noteq> 0
      then loadgif_delay_loop hal (dtime - 1) (calls + 1) (hal calls gifdecoding)
      else (calls, gifdecoding))"
  by pat_completeness auto
termination
  by (relation "measure (\<lambda>(hal, dtime, calls, gifdecoding). unat dtime)")
    (auto simp: unat_minus_one unat_gt_0)

definition loadgif_pause :: "(nat \<Rightarrow> 8 word \<Rightarrow> 8 word) \<Rightarrow> 16 word \<Rightarrow> 8 word \<Rightarrow> nat \<times> 8 word" where
  "loadgif_pause hal delay gifdecoding =
     loadgif_delay_loop hal (loadgif_dtime delay) 0 gifdecoding"

section \<open>Stating the properties\<close>

text \<open>
  The bytes a framebuffer needs so that every pixel of \<open>[0, width) \<times> [0, height)\<close> has
  its byte inside the buffer, by format, and the framebuffers that have them. The
  constructor checks neither the stride nor the length of the buffer, so this is a
  condition on the caller.
\<close>

definition bytes_needed :: "mp_obj_framebuf_t \<Rightarrow> int" where
  "bytes_needed fb =
     (let s = uint (stride fb); h = uint (height fb)
      in case format fb of
           FRAMEBUF_MVLSB \<Rightarrow> ((h + 7) div 8) * s
         | FRAMEBUF_RGB565 \<Rightarrow> 2 * (s * h)
         | FRAMEBUF_GS2_HMSB \<Rightarrow> (s * h + 3) div 4
         | FRAMEBUF_GS4_HMSB \<Rightarrow> (s * h + 1) div 2
         | FRAMEBUF_PL8 \<Rightarrow> s * h
         | FRAMEBUF_MHLSB \<Rightarrow> (s * h + 7) div 8
         | FRAMEBUF_MHMSB \<Rightarrow> (s * h + 7) div 8)"

definition fits :: "mp_obj_framebuf_t \<Rightarrow> heap \<Rightarrow> bool" where
  "fits fb hp \<longleftrightarrow>
     uint (width fb) \<le> uint (stride fb) \<and> bytes_needed fb \<le> int (length (hp (buf fb)))"

text \<open>The store with no bytes in any buffer, and byte \<open>i\<close> of buffer \<open>b\<close> after a method.\<close>

definition empty_heap :: heap where
  "empty_heap = (\<lambda>b. [])"

definition buffer_byte :: "nat \<Rightarrow> nat \<Rightarrow> fault + ('a \<times> heap) \<Rightarrow> byte option" where
  "buffer_byte b i r =
     (case r of
        Inl e \<Rightarrow> None
      | Inr (v, hp) \<Rightarrow> if i < length (hp b) then Some (hp b ! i) else None)"

text \<open>The script \<^verbatim>\<open>fb.pixel(x, y, c); fb.pixel(x, y)\<close> and the object it returns.\<close>

definition pixel_set_get ::
  "mp_obj_framebuf_t \<Rightarrow> int \<Rightarrow> int \<Rightarrow> int \<Rightarrow> heap \<Rightarrow> fault + int option" where
  "pixel_set_get fb x y c hp =
     (case framebuf_pixel fb x y (Some c) hp of
        Inl e \<Rightarrow> Inl e
      | Inr (r, hp') \<Rightarrow>
          (case framebuf_pixel fb x y None hp' of
             Inl e \<Rightarrow> Inl e
           | Inr (v, hp'') \<Rightarrow> Inr v))"

text \<open>The number of bits of a pixel in each format.\<close>

fun bit_depth :: "format \<Rightarrow> nat" where
  "bit_depth FRAMEBUF_MVLSB = 1"
| "bit_depth FRAMEBUF_MHLSB = 1"
| "bit_depth FRAMEBUF_MHMSB = 1"
| "bit_depth FRAMEBUF_GS2_HMSB = 2"
| "bit_depth FRAMEBUF_GS4_HMSB = 4"
| "bit_depth FRAMEBUF_PL8 = 8"
| "bit_depth FRAMEBUF_RGB565 = 16"

text \<open>The coordinates inside the canvas.\<close>

definition in_canvas :: "mp_obj_framebuf_t \<Rightarrow> int \<Rightarrow> int \<Rightarrow> bool" where
  "in_canvas fb x y \<longleftrightarrow> 0 \<le> x \<and> x < uint (width fb) \<and> 0 \<le> y \<and> y < uint (height fb)"

text \<open>What a format keeps of a colour: the value read back after it has been written.\<close>

fun stored_value :: "format \<Rightarrow> 32 word \<Rightarrow> 32 word" where
  "stored_value FRAMEBUF_MVLSB col = of_bool (col \<noteq> 0)"
| "stored_value FRAMEBUF_MHLSB col = of_bool (col \<noteq> 0)"
| "stored_value FRAMEBUF_MHMSB col = of_bool (col \<noteq> 0)"
| "stored_value FRAMEBUF_GS2_HMSB col = col AND 3"
| "stored_value FRAMEBUF_GS4_HMSB col = col AND 0x0f"
| "stored_value FRAMEBUF_PL8 col = col AND 0xff"
| "stored_value FRAMEBUF_RGB565 col = ucast (rgb565_color col)"

text \<open>
  Rounding up to a multiple of \<open>m\<close>, and the multiple that the constructor aligns the
  stride of each format to.
\<close>

definition round_up :: "int \<Rightarrow> int \<Rightarrow> int" where
  "round_up m n = ((n + m - 1) div m) * m"

fun stride_alignment :: "format \<Rightarrow> int" where
  "stride_alignment FRAMEBUF_MHLSB = 8"
| "stride_alignment FRAMEBUF_MHMSB = 8"
| "stride_alignment FRAMEBUF_GS2_HMSB = 4"
| "stride_alignment FRAMEBUF_GS4_HMSB = 2"
| "stride_alignment FRAMEBUF_MVLSB = 1"
| "stride_alignment FRAMEBUF_RGB565 = 1"
| "stride_alignment FRAMEBUF_PL8 = 1"

text \<open>
  Written from the claim about a blit without key, not from the source: the copy of the
  clipped overlap that tests no key and writes every pixel it reads.
\<close>

function copy_row ::
  "mp_obj_framebuf_t \<Rightarrow> mp_obj_framebuf_t \<Rightarrow> int \<Rightarrow> int \<Rightarrow> int \<Rightarrow> int \<Rightarrow> int \<Rightarrow> heap
     \<Rightarrow> fault + heap" where
  "copy_row self source y0 y1 x0end cx0 cx1 hp =
     (if cx0 < x0end
      then (case getpixel source cx1 y1 hp of
              Inl e \<Rightarrow> Inl e
            | Inr col \<Rightarrow>
                (case setpixel self cx0 y0 col hp of
                   Inl e \<Rightarrow> Inl e
                 | Inr hp' \<Rightarrow> copy_row self source y0 y1 x0end (cx0 + 1) (cx1 + 1) hp'))
      else Inr hp)"
  by pat_completeness auto
termination
  by (relation "measure (\<lambda>(self, source, y0, y1, x0end, cx0, cx1, hp). nat (x0end - cx0))")
    auto

function copy_rows ::
  "mp_obj_framebuf_t \<Rightarrow> mp_obj_framebuf_t \<Rightarrow> int \<Rightarrow> int \<Rightarrow> int \<Rightarrow> int \<Rightarrow> int \<Rightarrow> int \<Rightarrow> heap
     \<Rightarrow> fault + heap" where
  "copy_rows self source x0 x1 x0end y0end y0 y1 hp =
     (if y0 < y0end
      then (case copy_row self source y0 y1 x0end x0 x1 hp of
              Inl e \<Rightarrow> Inl e
            | Inr hp' \<Rightarrow> copy_rows self source x0 x1 x0end y0end (y0 + 1) (y1 + 1) hp')
      else Inr hp)"
  by pat_completeness auto
termination
  by (relation "measure (\<lambda>(self, source, x0, x1, x0end, y0end, y0, y1, hp). nat (y0end - y0))")
    auto

definition copy_overlap ::
  "mp_obj_framebuf_t \<Rightarrow> mp_obj_framebuf_t \<Rightarrow> int \<Rightarrow> int \<Rightarrow> heap \<Rightarrow> fault + heap" where
  "copy_overlap self source x y hp =
     (if x \<ge> uint (width self) \<or> y \<ge> uint (height self)
         \<or> - x \<ge> uint (width source) \<or> - y \<ge> uint (height source)
      then Inr hp
      else copy_rows self source (max 0 x) (max 0 (- x))
             (min (uint (width self)) (x + uint (width source)))
             (min (uint (height self)) (y + uint (height source)))
             (max 0 y) (max 0 (- y)) hp)"

text \<open>
  The flag after \<open>k\<close> more calls of the HAL wait, the next call being number \<open>c\<close>; and a
  HAL wait during which nothing touches the flag.
\<close>

fun flag_from :: "(nat \<Rightarrow> 8 word \<Rightarrow> 8 word) \<Rightarrow> nat \<Rightarrow> 8 word \<Rightarrow> nat \<Rightarrow> 8 word" where
  "flag_from hal c g 0 = g"
| "flag_from hal c g (Suc k) = flag_from hal (Suc c) (hal c g) k"

definition quiet_hal :: "nat \<Rightarrow> 8 word \<Rightarrow> 8 word" where
  "quiet_hal n g = g"

text \<open>A colour table with two colours, and interlace tables followed by zero bytes.\<close>

definition two_colours :: "int \<Rightarrow> 32 word" where
  "two_colours i = (if i = 0 then 0xAA else 0xBB)"

definition zero_past :: "nat \<Rightarrow> int" where
  "zero_past i = 0"

section \<open>Auxiliary facts\<close>

text \<open>
  The equations of the loops are not simplification rules: a proof unfolds a loop where
  it means to.
\<close>

declare blit_row.simps [simp del]
declare blit_rows.simps [simp del]
declare circle_loop.simps [simp del]
declare gif_row.simps [simp del]
declare gif_rows.simps [simp del]
declare loadgif_delay_loop.simps [simp del]
declare copy_row.simps [simp del]
declare copy_rows.simps [simp del]

subsection \<open>Memory accesses\<close>

lemma load8_ok:
  "0 \<le> i \<Longrightarrow> i < int (length (hp (buf fb))) \<Longrightarrow> load8 fb i hp = Inr (hp (buf fb) ! nat i)"
  by (simp add: load8_def)

lemma store8_ok:
  "0 \<le> i \<Longrightarrow> i < int (length (hp (buf fb))) \<Longrightarrow>
   store8 fb i v hp = Inr (hp(buf fb := (hp (buf fb))[nat i := v]))"
  by (simp add: store8_def)

lemma store16_ok:
  assumes "0 \<le> i" "2 * i + 1 < int (length (hp (buf fb)))"
  shows "store16 fb i v hp =
    Inr (hp(buf fb := (hp (buf fb))[nat (2 * i) := ucast v, nat (2 * i + 1) := ucast (drop_bit 8 v)]))"
  using assms by (simp add: store16_def store8_def)

lemma bytes_of_word16:
  "push_bit 8 (ucast (ucast (drop_bit 8 v) :: byte)) OR ucast (ucast v :: byte) = (v :: 16 word)"
  by (rule bit_eqI) (auto simp: bit_simps)

lemma load16_store16:
  assumes "0 \<le> i" "2 * i + 1 < int (length (hp (buf fb)))"
  shows "load16 fb i
     (hp(buf fb := (hp (buf fb))[nat (2 * i) := ucast v, nat (2 * i + 1) := ucast (drop_bit 8 v)]))
     = Inr v"
proof -
  have "nat (2 * i) \<noteq> nat (2 * i + 1)" using assms by linarith
  then show ?thesis using assms by (simp add: load16_def load8_def bytes_of_word16)
qed

subsection \<open>Bits\<close>

lemma m3: "(3 :: 'a::len word) = mask 2" by (simp add: mask_eq_exp_minus_1)
lemma m15: "(15 :: 'a::len word) = mask 4" by (simp add: mask_eq_exp_minus_1)
lemma m255: "(255 :: 'a::len word) = mask 8" by (simp add: mask_eq_exp_minus_1)
lemma m240: "(240 :: byte) = push_bit 4 (mask 4)" by (simp add: mask_eq_exp_minus_1)

lemma and7_int: "0 \<le> (x::int) AND 7" "(x::int) AND 7 < 8"
proof -
  have "x AND 7 = x AND mask 3" by (simp add: mask_eq_exp_minus_1)
  also have "\<dots> = x mod 8" by (simp flip: take_bit_eq_mask add: take_bit_eq_mod)
  finally have e: "x AND 7 = x mod 8" .
  show "0 \<le> x AND 7" "x AND 7 < 8" by (simp_all add: e)
qed

lemma and3_int: "0 \<le> (x::int) AND 3" "(x::int) AND 3 < 4"
proof -
  have "x AND 3 = x AND mask 2" by (simp add: mask_eq_exp_minus_1)
  also have "\<dots> = x mod 4" by (simp flip: take_bit_eq_mask add: take_bit_eq_mod)
  finally have e: "x AND 3 = x mod 4" .
  show "0 \<le> x AND 3" "x AND 3 < 4" by (simp_all add: e)
qed

lemma get_set_bit_to:
  "offset < 8 \<Longrightarrow>
   (ucast (drop_bit offset (set_bit_to b offset col)) AND 1 :: 32 word) = of_bool (col \<noteq> 0)"
  by (rule bit_eqI) (auto simp: set_bit_to_def bit_simps)

lemma get_gs2:
  "shift < 7 \<Longrightarrow>
   (ucast (drop_bit shift ((ucast (push_bit shift (col AND 3)) :: byte)
       OR (b AND NOT (push_bit shift 3)))) AND 3 :: 32 word) = col AND 3"
  unfolding m3 by (rule bit_eqI) (auto simp: bit_simps)

lemma get_gs4_odd:
  "(ucast ((((ucast col :: byte) AND 0x0f) OR (b AND 0xf0)) AND 0x0f) :: 32 word)
     = (col :: 32 word) AND 0x0f"
  unfolding m15 m240 by (rule bit_eqI) (auto simp: bit_simps)

lemma get_gs4_even:
  "(ucast (drop_bit 4 (push_bit 4 (ucast col :: byte) OR (b AND 0x0f))) :: 32 word)
     = (col :: 32 word) AND 0x0f"
  unfolding m15 by (rule bit_eqI) (auto simp: bit_simps)

lemma get_gs8: "(ucast (ucast (col AND 0xff) :: byte) :: 32 word) = (col :: 32 word) AND 0xff"
  unfolding m255 by (rule bit_eqI) (auto simp: bit_simps)

subsection \<open>Offsets of the pixels of the canvas\<close>

lemma pixel_offset_bounds:
  fixes x y w h s :: int
  assumes "0 \<le> x" "x < w" "w \<le> s" "0 \<le> y" "y < h"
  shows "0 \<le> x + y * s" and "x + y * s < s * h"
proof -
  from assms have s: "0 \<le> s" by linarith
  with assms show "0 \<le> x + y * s" by simp
  from assms have "y + 1 \<le> h" by simp
  then have "(y + 1) * s \<le> h * s" using s by (rule mult_right_mono)
  then show "x + y * s < s * h" using assms by (simp add: algebra_simps)
qed

lemma mvlsb_offset_bounds:
  fixes x y w h s :: int
  assumes "0 \<le> x" "x < w" "w \<le> s" "0 \<le> y" "y < h"
  shows "0 \<le> drop_bit 3 y * s + x" and "drop_bit 3 y * s + x < ((h + 7) div 8) * s"
proof -
  from assms have s: "0 \<le> s" by linarith
  have d: "drop_bit 3 y = y div 8" by (simp add: drop_bit_eq_div)
  from assms have "0 \<le> y div 8" by simp
  with assms s show "0 \<le> drop_bit 3 y * s + x" by (simp add: d)
  from assms have "y div 8 + 1 \<le> (h + 7) div 8" by linarith
  then have "(y div 8 + 1) * s \<le> ((h + 7) div 8) * s" using s by (rule mult_right_mono)
  then show "drop_bit 3 y * s + x < ((h + 7) div 8) * s" using assms by (simp add: d algebra_simps)
qed

lemma canvas_offset:
  assumes "fits fb hp" "in_canvas fb x y"
  shows "0 \<le> x + y * uint (stride fb)" "x + y * uint (stride fb) < uint (stride fb) * uint (height fb)"
  using pixel_offset_bounds[of x "uint (width fb)" "uint (stride fb)" y "uint (height fb)"] assms
  by (auto simp: fits_def in_canvas_def)

text \<open>One lemma per format: the write succeeds, keeps every length, and is read back.\<close>

lemma mvlsb_set_get:
  assumes f: "format fb = FRAMEBUF_MVLSB" and fit: "fits fb hp" and c: "in_canvas fb x y"
  shows "\<exists>hp'. mvlsb_setpixel fb x y col hp = Inr hp' \<and> (\<forall>b. length (hp' b) = length (hp b))
     \<and> mvlsb_getpixel fb x y hp' = Inr (of_bool (col \<noteq> 0))"
proof -
  let ?i = "drop_bit 3 y * uint (stride fb) + x"
  have b: "0 \<le> ?i" "?i < int (length (hp (buf fb)))"
    using mvlsb_offset_bounds[of x "uint (width fb)" "uint (stride fb)" y "uint (height fb)"] fit c f
    by (auto simp: fits_def in_canvas_def bytes_needed_def)
  have o: "nat (y AND 7) < 8" using and7_int[of y] by linarith
  let ?hp = "hp(buf fb := (hp (buf fb))[nat ?i := set_bit_to (hp (buf fb) ! nat ?i) (nat (y AND 7)) col])"
  have s: "mvlsb_setpixel fb x y col hp = Inr ?hp"
    using b by (simp add: mvlsb_setpixel_def load8_ok store8_ok Let_def)
  have n: "nat ?i < length (hp (buf fb))" using b by linarith
  have ld: "load8 fb ?i ?hp = Inr (set_bit_to (hp (buf fb) ! nat ?i) (nat (y AND 7)) col)"
    using b n by (simp add: load8_def)
  have g: "mvlsb_getpixel fb x y ?hp = Inr (of_bool (col \<noteq> 0))"
    unfolding mvlsb_getpixel_def ld using get_set_bit_to[OF o] by simp
  have l: "\<forall>b. length (?hp b) = length (hp b)" by simp
  from s g l show ?thesis by blast
qed

lemma mono_horiz_set_get:
  assumes f: "format fb = FRAMEBUF_MHLSB \<or> format fb = FRAMEBUF_MHMSB"
    and fit: "fits fb hp" and c: "in_canvas fb x y"
  shows "\<exists>hp'. mono_horiz_setpixel fb x y col hp = Inr hp' \<and> (\<forall>b. length (hp' b) = length (hp b))
     \<and> mono_horiz_getpixel fb x y hp' = Inr (of_bool (col \<noteq> 0))"
proof -
  let ?i = "drop_bit 3 (x + y * uint (stride fb))"
  let ?o = "nat (if format fb = FRAMEBUF_MHMSB then x AND 7 else 7 - (x AND 7))"
  have "bytes_needed fb = (uint (stride fb) * uint (height fb) + 7) div 8"
    using f by (auto simp: bytes_needed_def)
  then have b: "0 \<le> ?i" "?i < int (length (hp (buf fb)))"
    using canvas_offset[OF fit c] fit by (auto simp: fits_def drop_bit_eq_div)
  have "nat (x AND 7) < 8" "nat (7 - (x AND 7)) < 8" using and7_int[of x] by linarith+
  then have o: "?o < 8" by (simp split: if_split)
  have n: "nat ?i < length (hp (buf fb))" using b by linarith
  let ?hp = "hp(buf fb := (hp (buf fb))[nat ?i := set_bit_to (hp (buf fb) ! nat ?i) ?o col])"
  have s: "mono_horiz_setpixel fb x y col hp = Inr ?hp"
    using b by (simp add: mono_horiz_setpixel_def load8_ok store8_ok Let_def)
  have ld: "load8 fb ?i ?hp = Inr (set_bit_to (hp (buf fb) ! nat ?i) ?o col)"
    using b n by (simp add: load8_def)
  have g: "mono_horiz_getpixel fb x y ?hp = Inr (of_bool (col \<noteq> 0))"
    unfolding mono_horiz_getpixel_def Let_def ld using get_set_bit_to[OF o] by simp
  have l: "\<forall>b. length (?hp b) = length (hp b)" by simp
  from s g l show ?thesis by blast
qed

lemma gs2_hmsb_set_get:
  assumes f: "format fb = FRAMEBUF_GS2_HMSB" and fit: "fits fb hp" and c: "in_canvas fb x y"
  shows "\<exists>hp'. gs2_hmsb_setpixel fb x y col hp = Inr hp' \<and> (\<forall>b. length (hp' b) = length (hp b))
     \<and> gs2_hmsb_getpixel fb x y hp' = Inr (col AND 3)"
proof -
  let ?i = "drop_bit 2 (x + y * uint (stride fb))"
  let ?sh = "nat (push_bit 1 (x AND 3))"
  have "bytes_needed fb = (uint (stride fb) * uint (height fb) + 3) div 4"
    using f by (auto simp: bytes_needed_def)
  then have b: "0 \<le> ?i" "?i < int (length (hp (buf fb)))"
    using canvas_offset[OF fit c] fit by (auto simp: fits_def drop_bit_eq_div)
  have "push_bit 1 (x AND 3) = 2 * (x AND 3)" by (simp add: push_bit_eq_mult)
  then have o: "?sh < 7" using and3_int[of x] by linarith
  let ?hp = "hp(buf fb := (hp (buf fb))[nat ?i :=
      (ucast (push_bit ?sh (col AND 3)) :: byte) OR ((hp (buf fb) ! nat ?i) AND NOT (push_bit ?sh 3))])"
  have s: "gs2_hmsb_setpixel fb x y col hp = Inr ?hp"
    using b by (simp add: gs2_hmsb_setpixel_def load8_ok store8_ok Let_def)
  have n: "nat ?i < length (hp (buf fb))" using b by linarith
  have ld: "load8 fb ?i ?hp = Inr ((ucast (push_bit ?sh (col AND 3)) :: byte)
      OR ((hp (buf fb) ! nat ?i) AND NOT (push_bit ?sh 3)))"
    using b n by (simp add: load8_def)
  have g: "gs2_hmsb_getpixel fb x y ?hp = Inr (col AND 3)"
    unfolding gs2_hmsb_getpixel_def ld using get_gs2[OF o] by (simp only: sum.case)
  have l: "\<forall>b. length (?hp b) = length (hp b)" by simp
  from s g l show ?thesis by blast
qed

lemma gs4_hmsb_set_get:
  assumes f: "format fb = FRAMEBUF_GS4_HMSB" and fit: "fits fb hp" and c: "in_canvas fb x y"
  shows "\<exists>hp'. gs4_hmsb_setpixel fb x y col hp = Inr hp' \<and> (\<forall>b. length (hp' b) = length (hp b))
     \<and> gs4_hmsb_getpixel fb x y hp' = Inr (col AND 0x0f)"
proof -
  let ?i = "drop_bit 1 (x + y * uint (stride fb))"
  have "bytes_needed fb = (uint (stride fb) * uint (height fb) + 1) div 2"
    using f by (auto simp: bytes_needed_def)
  then have b: "0 \<le> ?i" "?i < int (length (hp (buf fb)))"
    using canvas_offset[OF fit c] fit by (auto simp: fits_def drop_bit_eq_div)
  let ?v = "if x smod 2 \<noteq> 0 then ((ucast col :: byte) AND 0x0f) OR ((hp (buf fb) ! nat ?i) AND 0xf0)
            else push_bit 4 (ucast col :: byte) OR ((hp (buf fb) ! nat ?i) AND 0x0f)"
  let ?hp = "hp(buf fb := (hp (buf fb))[nat ?i := ?v])"
  have s: "gs4_hmsb_setpixel fb x y col hp = Inr ?hp"
    using b by (simp add: gs4_hmsb_setpixel_def load8_ok store8_ok Let_def)
  have n: "nat ?i < length (hp (buf fb))" using b by linarith
  have ld: "load8 fb ?i ?hp = Inr ?v"
    using b n by (simp add: load8_def)
  have g: "gs4_hmsb_getpixel fb x y ?hp = Inr (col AND 0x0f)"
    unfolding gs4_hmsb_getpixel_def ld using get_gs4_odd get_gs4_even by simp
  have l: "\<forall>b. length (?hp b) = length (hp b)" by simp
  from s g l show ?thesis by blast
qed

lemma gs8_set_get:
  assumes f: "format fb = FRAMEBUF_PL8" and fit: "fits fb hp" and c: "in_canvas fb x y"
  shows "\<exists>hp'. gs8_setpixel fb x y col hp = Inr hp' \<and> (\<forall>b. length (hp' b) = length (hp b))
     \<and> gs8_getpixel fb x y hp' = Inr (col AND 0xff)"
proof -
  let ?i = "x + y * uint (stride fb)"
  have "bytes_needed fb = uint (stride fb) * uint (height fb)"
    using f by (auto simp: bytes_needed_def)
  then have b: "0 \<le> ?i" "?i < int (length (hp (buf fb)))"
    using canvas_offset[OF fit c] fit by (auto simp: fits_def)
  let ?hp = "hp(buf fb := (hp (buf fb))[nat ?i := ucast (col AND 0xff)])"
  have s: "gs8_setpixel fb x y col hp = Inr ?hp"
    using b by (simp add: gs8_setpixel_def store8_ok)
  have n: "nat ?i < length (hp (buf fb))" using b by linarith
  have ld: "load8 fb ?i ?hp = Inr (ucast (col AND 0xff))"
    using b n by (simp add: load8_def)
  have g: "gs8_getpixel fb x y ?hp = Inr (col AND 0xff)"
    unfolding gs8_getpixel_def ld using get_gs8 by simp
  have l: "\<forall>b. length (?hp b) = length (hp b)" by simp
  from s g l show ?thesis by blast
qed

lemma rgb565_set_get:
  assumes f: "format fb = FRAMEBUF_RGB565" and fit: "fits fb hp" and c: "in_canvas fb x y"
  shows "\<exists>hp'. rgb565_setpixel fb x y col hp = Inr hp' \<and> (\<forall>b. length (hp' b) = length (hp b))
     \<and> load16 fb (x + y * uint (stride fb)) hp' = Inr (rgb565_color col)
     \<and> rgb565_getpixel fb x y hp' = Inr (ucast (rgb565_color col))"
proof -
  let ?i = "x + y * uint (stride fb)"
  have "bytes_needed fb = 2 * (uint (stride fb) * uint (height fb))"
    using f by (auto simp: bytes_needed_def)
  then have b: "0 \<le> ?i" "2 * ?i + 1 < int (length (hp (buf fb)))"
    using canvas_offset[OF fit c] fit by (auto simp: fits_def)
  let ?v = "rgb565_color col"
  let ?hp = "hp(buf fb := (hp (buf fb))[nat (2 * ?i) := ucast ?v, nat (2 * ?i + 1) := ucast (drop_bit 8 ?v)])"
  have s: "rgb565_setpixel fb x y col hp = Inr ?hp"
    unfolding rgb565_setpixel_def using b by (rule store16_ok)
  have g0: "load16 fb ?i ?hp = Inr ?v" using b by (rule load16_store16)
  then have g: "rgb565_getpixel fb x y ?hp = Inr (ucast ?v)"
    by (simp add: rgb565_getpixel_def)
  have l: "\<forall>b. length (?hp b) = length (hp b)" by simp
  from s g0 g l show ?thesis by blast
qed

lemma setpixel_getpixel:
  assumes fit: "fits fb hp" and c: "in_canvas fb x y"
  shows "\<exists>hp'. setpixel fb x y col hp = Inr hp' \<and> (\<forall>b. length (hp' b) = length (hp b))
     \<and> getpixel fb x y hp' = Inr (stored_value (format fb) col)"
proof (cases "format fb")
  case FRAMEBUF_MVLSB
  then show ?thesis using mvlsb_set_get[OF _ fit c, of col] by simp
next
  case FRAMEBUF_RGB565
  then show ?thesis using rgb565_set_get[OF _ fit c, of col] by auto
next
  case FRAMEBUF_GS4_HMSB
  then show ?thesis using gs4_hmsb_set_get[OF _ fit c, of col] by simp
next
  case FRAMEBUF_MHLSB
  then show ?thesis using mono_horiz_set_get[OF _ fit c, of col] by simp
next
  case FRAMEBUF_MHMSB
  then show ?thesis using mono_horiz_set_get[OF _ fit c, of col] by simp
next
  case FRAMEBUF_GS2_HMSB
  then show ?thesis using gs2_hmsb_set_get[OF _ fit c, of col] by simp
next
  case FRAMEBUF_PL8
  then show ?thesis using gs8_set_get[OF _ fit c, of col] by simp
qed


subsection \<open>Colours that a format keeps whole\<close>

lemma uint_and_mask_small:
  assumes "0 \<le> c" "c < 2 ^ n" "n \<le> 32"
  shows "uint ((word_of_int c :: 32 word) AND mask n) = c"
proof -
  have "(2::int) ^ n \<le> 2 ^ 32" using assms(3) by (intro power_increasing) simp_all
  then have "c < 2 ^ 32" using assms(2) by linarith
  then have "take_bit 32 c = c" using assms(1) by (simp add: take_bit_int_eq_self)
  moreover have "take_bit n c = c" using assms by (simp add: take_bit_int_eq_self)
  ultimately show ?thesis
    by (simp flip: take_bit_eq_mask add: unsigned_take_bit_eq uint_word_of_int_eq)
qed

lemma uint_ucast_16_32: "uint (ucast (w :: 16 word) :: 32 word) = uint w"
  by (simp add: uint_up_ucast is_up)

lemma stored_value_small:
  assumes "fmt \<noteq> FRAMEBUF_RGB565" "0 \<le> c" "c < 2 ^ bit_depth fmt"
  shows "uint (stored_value fmt (word_of_int c)) = c"
proof (cases fmt)
  case FRAMEBUF_RGB565
  with assms show ?thesis by simp
next
  case FRAMEBUF_GS2_HMSB
  then show ?thesis using uint_and_mask_small[of c 2] assms by (simp add: m3)
next
  case FRAMEBUF_GS4_HMSB
  then show ?thesis using uint_and_mask_small[of c 4] assms by (simp add: m15)
next
  case FRAMEBUF_PL8
  then show ?thesis using uint_and_mask_small[of c 8] assms by (simp add: m255)
next
  case FRAMEBUF_MVLSB
  then have "c = 0 \<or> c = 1" using assms by auto
  then show ?thesis using FRAMEBUF_MVLSB by auto
next
  case FRAMEBUF_MHLSB
  then have "c = 0 \<or> c = 1" using assms by auto
  then show ?thesis using FRAMEBUF_MHLSB by auto
next
  case FRAMEBUF_MHMSB
  then have "c = 0 \<or> c = 1" using assms by auto
  then show ?thesis using FRAMEBUF_MHMSB by auto
qed

lemma pixel_set_get_stored:
  assumes fit: "fits fb hp" and c: "in_canvas fb x y"
  shows "pixel_set_get fb x y c hp = Inr (Some (uint (stored_value (format fb) (word_of_int c))))"
proof -
  obtain hp' where s: "setpixel fb x y (word_of_int c) hp = Inr hp'"
    and g: "getpixel fb x y hp' = Inr (stored_value (format fb) (word_of_int c))"
    using setpixel_getpixel[OF fit c] by blast
  have i: "0 \<le> x \<and> x < uint (width fb) \<and> 0 \<le> y \<and> y < uint (height fb)"
    using c by (simp add: in_canvas_def)
  show ?thesis
    unfolding pixel_set_get_def framebuf_pixel_def using i s g
    by (simp del: setpixel.simps getpixel.simps)
qed

subsection \<open>Aligning the stride\<close>

lemma and_not_mask_word: "(w :: 'a::len word) AND NOT (mask n) = push_bit n (drop_bit n w)"
  by (rule bit_eqI) (auto simp: bit_simps)

lemma uint_align:
  fixes st :: "16 word"
  assumes "uint st + (2 ^ n - 1) < 65536" and "n < 16"
  shows "uint ((st + mask n) AND NOT (mask n)) = round_up (2 ^ n) (uint st)"
proof -
  have "uint (mask n :: 16 word) = (mask n :: int)"
    using assms(2) by (simp add: uint_mask_eq min_def)
  also have "(mask n :: int) = 2 ^ n - 1" by (rule mask_eq_exp_minus_1)
  finally have m: "uint (mask n :: 16 word) = 2 ^ n - 1" .
  have "uint st + uint (mask n :: 16 word) < 2 ^ LENGTH(16)" using assms(1) m by simp
  then have a: "uint (st + mask n) = uint st + (2 ^ n - 1)"
    using m by (simp add: uint_add_lem[THEN iffD1])
  let ?k = "uint st + (2 ^ n - 1)"
  have k: "0 \<le> ?k" by (simp add: add_nonneg_nonneg)
  have "?k div 2 ^ n * 2 ^ n = ?k - ?k mod 2 ^ n" by (simp add: minus_mod_eq_div_mult)
  moreover have "0 \<le> ?k mod 2 ^ n" by simp
  ultimately have "?k div 2 ^ n * 2 ^ n \<le> ?k" by linarith
  then have "?k div 2 ^ n * 2 ^ n < 65536" using assms(1) by linarith
  then have lt: "?k div 2 ^ n * 2 ^ n < 2 ^ 16" by simp
  have ge: "0 \<le> ?k div 2 ^ n * 2 ^ n" using k by (simp add: pos_imp_zdiv_nonneg_iff)
  have "uint ((st + mask n) AND NOT (mask n)) = take_bit 16 (push_bit n (drop_bit n ?k))"
    by (simp add: and_not_mask_word unsigned_push_bit_eq unsigned_drop_bit_eq a take_bit_int_eq_self k assms(1)) 
  also have "\<dots> = ?k div 2 ^ n * 2 ^ n"
    using lt ge by (simp add: push_bit_eq_mult drop_bit_eq_div take_bit_int_eq_self)
  finally show ?thesis by (simp add: round_up_def algebra_simps)
qed

lemma uint_align8: "uint (st :: 16 word) + 7 < 65536 \<Longrightarrow> uint ((st + 7) AND NOT 7) = round_up 8 (uint st)"
  using uint_align[of st 3] by (simp add: mask_eq_exp_minus_1)

lemma uint_align4: "uint (st :: 16 word) + 3 < 65536 \<Longrightarrow> uint ((st + 3) AND NOT 3) = round_up 4 (uint st)"
  using uint_align[of st 2] by (simp add: mask_eq_exp_minus_1)

lemma uint_align2: "uint (st :: 16 word) + 1 < 65536 \<Longrightarrow> uint ((st + 1) AND NOT 1) = round_up 2 (uint st)"
  using uint_align[of st 1] by (simp add: mask_eq_exp_minus_1)

lemma round_up_1: "round_up 1 n = n" by (simp add: round_up_def)

lemma round_up_least:
  assumes "0 < m"
  shows "m dvd round_up m n" and "n \<le> round_up m n" and "round_up m n < n + m"
proof -
  show "m dvd round_up m n" by (simp add: round_up_def)
  have e: "(n + m - 1) div m * m = (n + m - 1) - (n + m - 1) mod m"
    by (simp add: minus_mod_eq_div_mult)
  have "0 \<le> (n + m - 1) mod m" "(n + m - 1) mod m < m" using assms by simp_all
  then show "n \<le> round_up m n" "round_up m n < n + m" unfolding round_up_def e by linarith+
qed


lemma format_byte_other:
  assumes "7 \<le> f" "f < 256"
  shows "(word_of_int f :: 8 word) \<notin> {0, 1, 2, 3, 4, 5, 6}"
proof -
  have u: "uint (word_of_int f :: 8 word) = f"
    using assms by (simp add: uint_word_of_int_eq take_bit_int_eq_self)
  show ?thesis
  proof
    assume "(word_of_int f :: 8 word) \<in> {0, 1, 2, 3, 4, 5, 6}"
    then have "uint (word_of_int f :: 8 word) \<in> {0, 1, 2, 3, 4, 5, 6}" by auto
    then show False using u assms(1) by simp
  qed
qed

lemma round_up_fits:
  "round_up 8 u < 65536 \<Longrightarrow> u + 7 < 65536"
  "round_up 4 u < 65536 \<Longrightarrow> u + 3 < 65536"
  "round_up 2 u < 65536 \<Longrightarrow> u + 1 < 65536"
  by (simp_all add: round_up_def)

lemma uint_align_fits:
  fixes st :: "16 word"
  shows "round_up 8 (uint st) < 65536 \<longrightarrow> uint ((st + 7) AND NOT 7) = round_up 8 (uint st)"
    and "round_up 4 (uint st) < 65536 \<longrightarrow> uint ((st + 3) AND NOT 3) = round_up 4 (uint st)"
    and "round_up 2 (uint st) < 65536 \<longrightarrow> uint ((st + 1) AND NOT 1) = round_up 2 (uint st)"
  using uint_align8[OF round_up_fits(1)] uint_align4[OF round_up_fits(2)]
    uint_align2[OF round_up_fits(3)] by blast+

subsection \<open>Sums that a 32-bit integer holds\<close>

lemma int32_id: "- (2 ^ 31) \<le> k \<Longrightarrow> k < 2 ^ 31 \<Longrightarrow> int32 k = k"
  by (simp add: int32_def)

subsection \<open>The pause loop\<close>

lemma delay_loop_char:
  "case loadgif_delay_loop hal dtime c g of
     (calls, fl) \<Rightarrow>
       c \<le> calls \<and> calls - c \<le> unat dtime
       \<and> fl = flag_from hal c g (calls - c)
       \<and> (\<forall>j < calls - c. flag_from hal c g j \<noteq> 0)
       \<and> (calls - c < unat dtime \<longrightarrow> fl = 0)"
proof (induction hal dtime c g rule: loadgif_delay_loop.induct)
  case (1 hal dtime calls gifdecoding)
  show ?case
  proof (cases "dtime \<noteq> 0 \<and> gifdecoding \<noteq> 0")
    case False
    then show ?thesis by (subst loadgif_delay_loop.simps) (auto simp: unat_gt_0)
  next
    case True
    obtain n fl where r: "loadgif_delay_loop hal (dtime - 1) (calls + 1) (hal calls gifdecoding) = (n, fl)"
      by (cases "loadgif_delay_loop hal (dtime - 1) (calls + 1) (hal calls gifdecoding)")
    have "0 < unat dtime" using True by (simp add: unat_gt_0)
    then have u: "unat dtime = Suc (unat (dtime - 1))" using True by (simp add: unat_minus_one)
    from "1.IH"[OF True] r have ih:
      "calls + 1 \<le> n" "n - (calls + 1) \<le> unat (dtime - 1)"
      "fl = flag_from hal (calls + 1) (hal calls gifdecoding) (n - (calls + 1))"
      "\<forall>j < n - (calls + 1). flag_from hal (calls + 1) (hal calls gifdecoding) j \<noteq> 0"
      "n - (calls + 1) < unat (dtime - 1) \<longrightarrow> fl = 0"
      by auto
    have e: "loadgif_delay_loop hal dtime calls gifdecoding = (n, fl)"
      using True r by (subst loadgif_delay_loop.simps) simp
    have s: "n - calls = Suc (n - (calls + 1))" using ih(1) by linarith
    have a: "\<forall>j < n - calls. flag_from hal calls gifdecoding j \<noteq> 0"
    proof (intro allI impI)
      fix j assume "j < n - calls"
      then show "flag_from hal calls gifdecoding j \<noteq> 0"
        using True ih(4) s by (cases j) auto
    qed
    show ?thesis unfolding e using ih(1,2,3,5) u s a by simp
  qed
qed

subsection \<open>What a pixel read can return, and the blit without key\<close>

lemma ucast_byte_le: "(ucast (b :: byte) :: 32 word) \<le> 0xFF"
proof -
  have "uint (ucast b :: 32 word) = uint b" by (simp add: uint_up_ucast is_up)
  moreover have "uint b < 256" using uint_lt2p[of b] by simp
  ultimately show ?thesis by (simp add: word_le_def)
qed

lemma ucast_word16_le: "(ucast (v :: 16 word) :: 32 word) \<le> 0xFFFF"
proof -
  have "uint (ucast v :: 32 word) = uint v" by (simp add: uint_up_ucast is_up)
  moreover have "uint v < 65536" using uint_lt2p[of v] by simp
  ultimately show ?thesis by (simp add: word_le_def)
qed

lemma and_le_16bit: "(m :: 32 word) \<le> 0xFFFF \<Longrightarrow> a AND m \<le> 0xFFFF"
  using word_and_le1[of a m] by simp

lemma getpixel_16bit:
  assumes "getpixel fb x y hp = Inr v"
  shows "v \<le> 0xFFFF"
proof -
  have b: "(ucast (b :: byte) :: 32 word) \<le> 0xFFFF" for b
    using ucast_byte_le[of b] by (rule order_trans) simp
  show ?thesis
    using assms b ucast_word16_le and_le_16bit
    by (cases "format fb")
      (auto simp: mvlsb_getpixel_def rgb565_getpixel_def gs2_hmsb_getpixel_def
        gs4_hmsb_getpixel_def gs8_getpixel_def mono_horiz_getpixel_def Let_def
        split: sum.splits if_splits)
qed

lemma getpixel_not_minus_1:
  assumes "getpixel fb x y hp = Inr v"
  shows "v \<noteq> - 1"
proof
  assume "v = - 1"
  then have "(- 1 :: 32 word) \<le> 0xFFFF" using getpixel_16bit[OF assms] by simp
  moreover have "(- 1 :: 32 word) = 0xFFFFFFFF" by simp
  ultimately have "(0xFFFFFFFF :: 32 word) \<le> 0xFFFF" by (simp only:)
  then show False by simp
qed

lemma blit_row_keyless:
  "blit_row self source (- 1) y0 y1 x0end cx0 cx1 hp = copy_row self source y0 y1 x0end cx0 cx1 hp"
proof (induction self source "- 1 :: 32 word" y0 y1 x0end cx0 cx1 hp rule: blit_row.induct)
  case (1 self source y0 y1 x0end cx0 cx1 hp)
  show ?case
  proof (cases "cx0 < x0end")
    case False
    then show ?thesis by (subst blit_row.simps, subst copy_row.simps) simp
  next
    case True
    show ?thesis
    proof (cases "getpixel source cx1 y1 hp")
      case (Inl e)
      then show ?thesis using True
        by (subst blit_row.simps, subst copy_row.simps) (simp del: getpixel.simps)
    next
      case (Inr col)
      then have k: "col \<noteq> - 1" by (rule getpixel_not_minus_1)
      show ?thesis
      proof (cases "setpixel self cx0 y0 col hp")
        case (Inl e)
        then show ?thesis using True Inr k
          by (subst blit_row.simps, subst copy_row.simps)
            (simp del: getpixel.simps setpixel.simps)
      next
        case r: (Inr hp')
        have "blit_row self source (- 1) y0 y1 x0end (cx0 + 1) (cx1 + 1) hp'
            = copy_row self source y0 y1 x0end (cx0 + 1) (cx1 + 1) hp'"
          using "1.hyps"[OF True Inr _] r k by simp
        then show ?thesis using True Inr k r
          by (subst blit_row.simps, subst copy_row.simps)
            (simp del: getpixel.simps setpixel.simps)
      qed
    qed
  qed
qed

lemma blit_rows_keyless:
  "blit_rows self source (- 1) x0 x1 x0end y0end y0 y1 hp
     = copy_rows self source x0 x1 x0end y0end y0 y1 hp"
proof (induction self source "- 1 :: 32 word" x0 x1 x0end y0end y0 y1 hp rule: blit_rows.induct)
  case (1 self source x0 x1 x0end y0end y0 y1 hp)
  show ?case
  proof (cases "y0 < y0end")
    case False
    then show ?thesis by (subst blit_rows.simps, subst copy_rows.simps) simp
  next
    case True
    show ?thesis
    proof (cases "copy_row self source y0 y1 x0end x0 x1 hp")
      case (Inl e)
      then show ?thesis using True
        by (subst blit_rows.simps, subst copy_rows.simps) (simp add: blit_row_keyless)
    next
      case (Inr hp')
      then have "blit_row self source (- 1) y0 y1 x0end x0 x1 hp = Inr hp'"
        by (simp add: blit_row_keyless)
      from "1.hyps"[OF True this] show ?thesis using True Inr
        by (subst blit_rows.simps, subst copy_rows.simps) (simp add: blit_row_keyless)
    qed
  qed
qed

subsection \<open>The loops of scroll\<close>

lemma fits_lengths: "fits fb hp \<Longrightarrow> \<forall>b. length (hp' b) = length (hp b) \<Longrightarrow> fits fb hp'"
  by (simp add: fits_def)

lemma shifted_offset_in_buffer:
  fixes i n len :: int
  assumes "0 \<le> i" "i < n" "(n + (2 ^ k - 1)) div 2 ^ k \<le> len"
  shows "0 \<le> drop_bit k i \<and> drop_bit k i < len"
proof -
  have "i div 2 ^ k \<le> (n - 1) div 2 ^ k" using assms(2) by (intro zdiv_mono1) simp_all
  also have "(n - 1) div 2 ^ k < (n - 1) div 2 ^ k + 1" by simp
  also have "(n - 1) div 2 ^ k + 1 = (n - 1 + 2 ^ k) div 2 ^ k"
    using div_add_self2[of "2 ^ k :: int" "n - 1"] by simp
  also have "n - 1 + 2 ^ k = n + (2 ^ k - 1)" by simp
  finally have "i div 2 ^ k < len" using assms(3) by linarith
  moreover have "0 \<le> i div 2 ^ k" using assms(1) by (simp add: pos_imp_zdiv_nonneg_iff)
  ultimately show ?thesis by (simp add: drop_bit_eq_div)
qed

lemma getpixel_ok:
  assumes fit: "fits fb hp" and c: "in_canvas fb x y"
  shows "\<exists>v. getpixel fb x y hp = Inr v"
proof -
  note o = canvas_offset[OF fit c]
  note m = mvlsb_offset_bounds[of x "uint (width fb)" "uint (stride fb)" y "uint (height fb)"]
  let ?n = "uint (stride fb) * uint (height fb)"
  let ?len = "int (length (hp (buf fb)))"
  show ?thesis
  proof (cases "format fb")
    case FRAMEBUF_MVLSB
    then have "0 \<le> drop_bit 3 y * uint (stride fb) + x" "drop_bit 3 y * uint (stride fb) + x < ?len"
      using m fit c by (auto simp: fits_def in_canvas_def bytes_needed_def)
    then show ?thesis using FRAMEBUF_MVLSB by (simp add: mvlsb_getpixel_def load8_ok)
  next
    case FRAMEBUF_RGB565
    then have "0 \<le> x + y * uint (stride fb)" "2 * (x + y * uint (stride fb)) + 1 < ?len"
      using o fit by (auto simp: fits_def bytes_needed_def)
    then show ?thesis using FRAMEBUF_RGB565
      by (simp add: rgb565_getpixel_def load16_def load8_ok)
  next
    case FRAMEBUF_GS4_HMSB
    then have "(?n + (2 ^ 1 - 1)) div 2 ^ 1 \<le> ?len" using fit by (simp add: fits_def bytes_needed_def)
    then have "0 \<le> drop_bit 1 (x + y * uint (stride fb)) \<and> drop_bit 1 (x + y * uint (stride fb)) < ?len"
      using o by (intro shifted_offset_in_buffer)
    then show ?thesis using FRAMEBUF_GS4_HMSB by (simp add: gs4_hmsb_getpixel_def load8_ok)
  next
    case FRAMEBUF_MHLSB
    then have "(?n + (2 ^ 3 - 1)) div 2 ^ 3 \<le> ?len" using fit by (simp add: fits_def bytes_needed_def)
    then have "0 \<le> drop_bit 3 (x + y * uint (stride fb)) \<and> drop_bit 3 (x + y * uint (stride fb)) < ?len"
      using o by (intro shifted_offset_in_buffer)
    then show ?thesis using FRAMEBUF_MHLSB by (simp add: mono_horiz_getpixel_def load8_ok Let_def)
  next
    case FRAMEBUF_MHMSB
    then have "(?n + (2 ^ 3 - 1)) div 2 ^ 3 \<le> ?len" using fit by (simp add: fits_def bytes_needed_def)
    then have "0 \<le> drop_bit 3 (x + y * uint (stride fb)) \<and> drop_bit 3 (x + y * uint (stride fb)) < ?len"
      using o by (intro shifted_offset_in_buffer)
    then show ?thesis using FRAMEBUF_MHMSB by (simp add: mono_horiz_getpixel_def load8_ok Let_def)
  next
    case FRAMEBUF_GS2_HMSB
    then have "(?n + (2 ^ 2 - 1)) div 2 ^ 2 \<le> ?len" using fit by (simp add: fits_def bytes_needed_def)
    then have "0 \<le> drop_bit 2 (x + y * uint (stride fb)) \<and> drop_bit 2 (x + y * uint (stride fb)) < ?len"
      using o by (intro shifted_offset_in_buffer)
    then show ?thesis using FRAMEBUF_GS2_HMSB by (simp add: gs2_hmsb_getpixel_def load8_ok)
  next
    case FRAMEBUF_PL8
    then have "0 \<le> x + y * uint (stride fb)" "x + y * uint (stride fb) < ?len"
      using o fit by (auto simp: fits_def bytes_needed_def)
    then show ?thesis using FRAMEBUF_PL8 by (simp add: gs8_getpixel_def load8_ok)
  qed
qed

lemma scroll_pixel_ok:
  assumes fit: "fits self hp" and d: "in_canvas self x y"
    and s: "in_canvas self (x - xstep) (y - ystep)"
  shows "\<exists>hp'. scroll_pixel self xstep ystep x y hp = Inr hp' \<and> fits self hp'"
proof -
  obtain v where g: "getpixel self (x - xstep) (y - ystep) hp = Inr v"
    using getpixel_ok[OF fit s] by blast
  obtain hp' where w: "setpixel self x y v hp = Inr hp'" and l: "\<forall>b. length (hp' b) = length (hp b)"
    using setpixel_getpixel[OF fit d, of v] by blast
  have "scroll_pixel self xstep ystep x y hp = Inr hp'"
    using g w by (simp add: scroll_pixel_def del: getpixel.simps setpixel.simps)
  then show ?thesis using fits_lengths[OF fit l] by blast
qed

text \<open>The row loop ends when the end value lies ahead of \<open>x\<close> in the direction of \<open>dx\<close>.\<close>

lemma scroll_row_returns:
  assumes "(dx = 1 \<and> x \<le> xend) \<or> (dx = - 1 \<and> xend \<le> x)"
  shows "\<exists>r. scroll_row self xstep ystep xend dx y x hp = Some r"
  using assms
proof (induction "nat \<bar>xend - x\<bar>" arbitrary: x hp)
  case 0
  then have "x = xend" by simp
  then show ?case by (subst scroll_row.simps) simp
next
  case (Suc n)
  then have ne: "x \<noteq> xend" by auto
  show ?case
  proof (cases "scroll_pixel self xstep ystep x y hp")
    case (Inl e)
    then show ?thesis using ne by (subst scroll_row.simps) simp
  next
    case (Inr hp')
    have "n = nat \<bar>xend - (x + dx)\<bar>" using Suc.hyps(2) Suc.prems ne by auto
    moreover have "(dx = 1 \<and> x + dx \<le> xend) \<or> (dx = - 1 \<and> xend \<le> x + dx)"
      using Suc.prems ne by auto
    ultimately obtain r where "scroll_row self xstep ystep xend dx y (x + dx) hp' = Some r"
      using Suc.hyps(1) by blast
    then show ?thesis using ne Inr by (subst scroll_row.simps) simp
  qed
qed

lemma scroll_row_ok:
  assumes "(dx = 1 \<and> x \<le> xend) \<or> (dx = - 1 \<and> xend \<le> x)"
    and "fits self hp"
    and "\<forall>x'. (dx = 1 \<and> x \<le> x' \<and> x' < xend) \<or> (dx = - 1 \<and> xend < x' \<and> x' \<le> x)
           \<longrightarrow> in_canvas self x' y \<and> in_canvas self (x' - xstep) (y - ystep)"
  shows "\<exists>hp'. scroll_row self xstep ystep xend dx y x hp = Some (Inr hp') \<and> fits self hp'"
  using assms
proof (induction "nat \<bar>xend - x\<bar>" arbitrary: x hp)
  case 0
  then have "x = xend" by simp
  then show ?case using "0.prems"(2) by (subst scroll_row.simps) simp
next
  case (Suc n)
  then have ne: "x \<noteq> xend" by auto
  have here: "in_canvas self x y \<and> in_canvas self (x - xstep) (y - ystep)"
    using Suc.prems(1,3) ne by auto
  then obtain hp1 where p: "scroll_pixel self xstep ystep x y hp = Inr hp1" and f1: "fits self hp1"
    using scroll_pixel_ok[OF Suc.prems(2)] by blast
  have "n = nat \<bar>xend - (x + dx)\<bar>" using Suc.hyps(2) Suc.prems(1) ne by auto
  moreover have "(dx = 1 \<and> x + dx \<le> xend) \<or> (dx = - 1 \<and> xend \<le> x + dx)"
    using Suc.prems(1) ne by auto
  moreover have "\<forall>x'. (dx = 1 \<and> x + dx \<le> x' \<and> x' < xend) \<or> (dx = - 1 \<and> xend < x' \<and> x' \<le> x + dx)
           \<longrightarrow> in_canvas self x' y \<and> in_canvas self (x' - xstep) (y - ystep)"
    using Suc.prems(1,3) by auto
  ultimately obtain hp' where "scroll_row self xstep ystep xend dx y (x + dx) hp1 = Some (Inr hp')"
      and "fits self hp'"
    using Suc.hyps(1) f1 by blast
  then show ?case using ne p by (subst scroll_row.simps) simp
qed

lemma scroll_rows_returns:
  assumes "(dy = 1 \<and> y \<le> yend) \<or> (dy = - 1 \<and> yend \<le> y)"
    and "(dx = 1 \<and> sx \<le> xend) \<or> (dx = - 1 \<and> xend \<le> sx)"
  shows "\<exists>r. scroll_rows self xstep ystep sx xend dx yend dy y hp = Some r"
  using assms(1)
proof (induction "nat \<bar>yend - y\<bar>" arbitrary: y hp)
  case 0
  then have "y = yend" by simp
  then show ?case by (subst scroll_rows.simps) simp
next
  case (Suc n)
  then have ne: "y \<noteq> yend" by auto
  obtain r where row: "scroll_row self xstep ystep xend dx y sx hp = Some r"
    using scroll_row_returns[OF assms(2)] by blast
  show ?case
  proof (cases r)
    case (Inl e)
    then show ?thesis using ne row by (subst scroll_rows.simps) simp
  next
    case (Inr hp')
    have "n = nat \<bar>yend - (y + dy)\<bar>" using Suc.hyps(2) Suc.prems ne by auto
    moreover have "(dy = 1 \<and> y + dy \<le> yend) \<or> (dy = - 1 \<and> yend \<le> y + dy)"
      using Suc.prems ne by auto
    ultimately obtain r' where "scroll_rows self xstep ystep sx xend dx yend dy (y + dy) hp' = Some r'"
      using Suc.hyps(1) by blast
    then show ?thesis using ne row Inr by (subst scroll_rows.simps) simp
  qed
qed

lemma scroll_rows_ok:
  assumes "(dy = 1 \<and> y \<le> yend) \<or> (dy = - 1 \<and> yend \<le> y)"
    and "(dx = 1 \<and> sx \<le> xend) \<or> (dx = - 1 \<and> xend \<le> sx)"
    and "fits self hp"
    and "\<forall>x' y'. ((dx = 1 \<and> sx \<le> x' \<and> x' < xend) \<or> (dx = - 1 \<and> xend < x' \<and> x' \<le> sx))
           \<and> ((dy = 1 \<and> y \<le> y' \<and> y' < yend) \<or> (dy = - 1 \<and> yend < y' \<and> y' \<le> y))
           \<longrightarrow> in_canvas self x' y' \<and> in_canvas self (x' - xstep) (y' - ystep)"
  shows "\<exists>hp'. scroll_rows self xstep ystep sx xend dx yend dy y hp = Some (Inr hp') \<and> fits self hp'"
  using assms(1,3,4)
proof (induction "nat \<bar>yend - y\<bar>" arbitrary: y hp)
  case 0
  then have "y = yend" by simp
  then show ?case using "0.prems"(2) by (subst scroll_rows.simps) simp
next
  case (Suc n)
  then have ne: "y \<noteq> yend" by auto
  have yr: "(dy = 1 \<and> y \<le> y \<and> y < yend) \<or> (dy = - 1 \<and> yend < y \<and> y \<le> y)"
    using Suc.prems(1) ne by auto
  have "\<forall>x'. (dx = 1 \<and> sx \<le> x' \<and> x' < xend) \<or> (dx = - 1 \<and> xend < x' \<and> x' \<le> sx)
           \<longrightarrow> in_canvas self x' y \<and> in_canvas self (x' - xstep) (y - ystep)"
    using Suc.prems(3) yr by blast
  then obtain hp1 where row: "scroll_row self xstep ystep xend dx y sx hp = Some (Inr hp1)"
      and f1: "fits self hp1"
    using scroll_row_ok[OF assms(2) Suc.prems(2)] by blast
  have "n = nat \<bar>yend - (y + dy)\<bar>" using Suc.hyps(2) Suc.prems(1) ne by auto
  moreover have "(dy = 1 \<and> y + dy \<le> yend) \<or> (dy = - 1 \<and> yend \<le> y + dy)"
    using Suc.prems(1) ne by auto
  moreover have "\<forall>x' y'. ((dx = 1 \<and> sx \<le> x' \<and> x' < xend) \<or> (dx = - 1 \<and> xend < x' \<and> x' \<le> sx))
           \<and> ((dy = 1 \<and> y + dy \<le> y' \<and> y' < yend) \<or> (dy = - 1 \<and> yend < y' \<and> y' \<le> y + dy))
           \<longrightarrow> in_canvas self x' y' \<and> in_canvas self (x' - xstep) (y' - ystep)"
    using Suc.prems(1,3) by auto
  ultimately obtain hp' where "scroll_rows self xstep ystep sx xend dx yend dy (y + dy) hp1 = Some (Inr hp')"
      and "fits self hp'"
    using Suc.hyps(1) f1 by blast
  then show ?case using ne row by (subst scroll_rows.simps) simp
qed

subsection \<open>Unfolding a byte fill of known length\<close>

lemma memset_numeral:
  "memset fb p v (numeral k) hp =
     (case store8 fb p v hp of
        Inl e \<Rightarrow> Inl e
      | Inr hp' \<Rightarrow> memset fb (p + 1) v (pred_numeral k) hp')"
  by (simp add: numeral_eq_Suc)

section \<open>The monochrome scenario\<close>

text \<open>
  Claim C5, as stated: on an 8 by 8 \<^verbatim>\<open>MONO_HMSB\<close> framebuffer over sixteen zero bytes,
  \<^verbatim>\<open>pixel(0,0,1)\<close> makes byte 0 of the buffer \<open>0x80\<close>. It does not: \<^verbatim>\<open>MONO_HMSB\<close> is
  format 4, for which \<^verbatim>\<open>mono_horiz_setpixel\<close> takes the bit \<open>x & 7\<close>, bit 0 for \<open>x = 0\<close>.
\<close>

theorem mono_hmsb_first_pixel_counterexample:
  "framebuf_make_new 0 8 8 4 None
     = Inr \<lparr>buf = 0, width = 8, height = 8, stride = 8, format = FRAMEBUF_MHMSB\<rparr>
   \<and> buffer_byte 0 0
       (framebuf_pixel \<lparr>buf = 0, width = 8, height = 8, stride = 8, format = FRAMEBUF_MHMSB\<rparr>
          0 0 (Some 1) (empty_heap(0 := [0, 0, 0, 0, 0, 0, 0, 0, 0, 0, 0, 0, 0, 0, 0, 0])))
       \<noteq> Some 0x80"
  by (simp add: framebuf_make_new_def framebuf_pixel_def mono_horiz_setpixel_def load8_def
      store8_def set_bit_to_def buffer_byte_def empty_heap_def)

text \<open>
  Claim C5, amended: on that framebuffer \<^verbatim>\<open>pixel(0,0,1)\<close> makes byte 0 of the buffer
  \<open>0x01\<close>, and a following \<^verbatim>\<open>pixel(7,0,1)\<close> makes it \<open>0x81\<close>; no other byte changes.
\<close>

theorem mono_hmsb_scenario:
  "framebuf_make_new 0 8 8 4 None
     = Inr \<lparr>buf = 0, width = 8, height = 8, stride = 8, format = FRAMEBUF_MHMSB\<rparr>
   \<and> framebuf_pixel \<lparr>buf = 0, width = 8, height = 8, stride = 8, format = FRAMEBUF_MHMSB\<rparr>
         0 0 (Some 1) (empty_heap(0 := [0, 0, 0, 0, 0, 0, 0, 0, 0, 0, 0, 0, 0, 0, 0, 0]))
     = Inr (None, empty_heap(0 := [0x01, 0, 0, 0, 0, 0, 0, 0, 0, 0, 0, 0, 0, 0, 0, 0]))
   \<and> framebuf_pixel \<lparr>buf = 0, width = 8, height = 8, stride = 8, format = FRAMEBUF_MHMSB\<rparr>
         7 0 (Some 1) (empty_heap(0 := [0x01, 0, 0, 0, 0, 0, 0, 0, 0, 0, 0, 0, 0, 0, 0, 0]))
     = Inr (None, empty_heap(0 := [0x81, 0, 0, 0, 0, 0, 0, 0, 0, 0, 0, 0, 0, 0, 0, 0]))"
  by (simp add: framebuf_make_new_def framebuf_pixel_def mono_horiz_setpixel_def load8_def
      store8_def set_bit_to_def)

section \<open>The RGB565 encoding\<close>

text \<open>
  Claim C3, as stated, ends with: on a 2 by 1 \<^verbatim>\<open>RGB565\<close> framebuffer over four zero bytes,
  \<^verbatim>\<open>pixel(0,0,0xFF0000)\<close> leaves byte 0 equal to \<open>0x00\<close> and byte 1 equal to \<open>0xF8\<close>. It
  does not: the stored 16-bit word is \<open>0x00F8\<close>, whose low byte \<open>0xF8\<close> is byte 0 of the
  little-endian buffer.
\<close>

theorem rgb565_red_bytes_counterexample:
  "framebuf_make_new 0 2 1 1 None
     = Inr \<lparr>buf = 0, width = 2, height = 1, stride = 2, format = FRAMEBUF_RGB565\<rparr>
   \<and> buffer_byte 0 0
       (framebuf_pixel \<lparr>buf = 0, width = 2, height = 1, stride = 2, format = FRAMEBUF_RGB565\<rparr>
          0 0 (Some 0xFF0000) (empty_heap(0 := [0, 0, 0, 0])))
       \<noteq> Some 0x00"
  by (simp add: framebuf_make_new_def framebuf_pixel_def rgb565_setpixel_def store16_def
      store8_def rgb565_color_def COL_def COL0_def buffer_byte_def empty_heap_def)

text \<open>
  Claim C3, amended: for the \<^verbatim>\<open>RGB565\<close> format, setting a pixel of the canvas with colour
  \<open>col = 0x00RRGGBB\<close> stores the 16-bit word obtained by computing
  \<open>p = ((R>>3)<<11) | ((G>>2)<<5) | (B>>3)\<close> and byte-swapping it to
  \<open>((p & 0xFF) << 8) | ((p >> 8) & 0xFF)\<close>; get returns exactly this stored word; on a
  2 by 1 \<^verbatim>\<open>RGB565\<close> framebuffer over four zero bytes, \<^verbatim>\<open>pixel(0,0,0xFF0000)\<close> leaves byte
  0 equal to \<open>0xF8\<close> and byte 1 equal to \<open>0x00\<close>.
\<close>

theorem rgb565_setpixel_stores_swapped:
  assumes "format fb = FRAMEBUF_RGB565" and "fits fb hp" and "in_canvas fb x y"
  shows "(let R = drop_bit 16 col AND 0xff; G = drop_bit 8 col AND 0xff; B = col AND 0xff;
              p = push_bit 11 (drop_bit 3 R) OR push_bit 5 (drop_bit 2 G) OR drop_bit 3 B;
              stored = (ucast (push_bit 8 (p AND 0xFF) OR (drop_bit 8 p AND 0xFF)) :: 16 word)
          in \<exists>hp'. setpixel fb x y col hp = Inr hp'
               \<and> load16 fb (x + y * uint (stride fb)) hp' = Inr stored
               \<and> getpixel fb x y hp' = Inr (ucast stored))
     \<and> framebuf_make_new 0 2 1 1 None
         = Inr \<lparr>buf = 0, width = 2, height = 1, stride = 2, format = FRAMEBUF_RGB565\<rparr>
     \<and> framebuf_pixel \<lparr>buf = 0, width = 2, height = 1, stride = 2, format = FRAMEBUF_RGB565\<rparr>
          0 0 (Some 0xFF0000) (empty_heap(0 := [0, 0, 0, 0]))
         = Inr (None, empty_heap(0 := [0xF8, 0x00, 0, 0]))"
proof -
  have e: "(let R = drop_bit 16 col AND 0xff; G = drop_bit 8 col AND 0xff; B = col AND 0xff;
              p = push_bit 11 (drop_bit 3 R) OR push_bit 5 (drop_bit 2 G) OR drop_bit 3 B
           in (ucast (push_bit 8 (p AND 0xFF) OR (drop_bit 8 p AND 0xFF)) :: 16 word))
        = rgb565_color col"
    by (simp only: rgb565_color_def COL_def COL0_def Let_def)
  have g: "\<exists>hp'. setpixel fb x y col hp = Inr hp'
               \<and> load16 fb (x + y * uint (stride fb)) hp' = Inr (rgb565_color col)
               \<and> getpixel fb x y hp' = Inr (ucast (rgb565_color col))"
    using rgb565_set_get[OF assms, of col] assms(1) by auto
  have c: "framebuf_make_new 0 2 1 1 None
         = Inr \<lparr>buf = 0, width = 2, height = 1, stride = 2, format = FRAMEBUF_RGB565\<rparr>"
    by (simp add: framebuf_make_new_def)
  have d: "framebuf_pixel \<lparr>buf = 0, width = 2, height = 1, stride = 2, format = FRAMEBUF_RGB565\<rparr>
          0 0 (Some 0xFF0000) (empty_heap(0 := [0, 0, 0, 0]))
         = Inr (None, empty_heap(0 := [0xF8, 0x00, 0, 0]))"
    by (simp add: framebuf_pixel_def rgb565_setpixel_def store16_def store8_def rgb565_color_def
        COL_def COL0_def)
  from g c d show ?thesis unfolding e[symmetric] Let_def by blast
qed

theorem rgb565_setpixel_stores_swapped_witness:
  "format \<lparr>buf = 0, width = 2, height = 1, stride = 2, format = FRAMEBUF_RGB565\<rparr> = FRAMEBUF_RGB565
   \<and> fits \<lparr>buf = 0, width = 2, height = 1, stride = 2, format = FRAMEBUF_RGB565\<rparr>
        (empty_heap(0 := [0, 0, 0, 0]))
   \<and> in_canvas \<lparr>buf = 0, width = 2, height = 1, stride = 2, format = FRAMEBUF_RGB565\<rparr> 1 0
   \<and> (\<exists>hp'. setpixel \<lparr>buf = 0, width = 2, height = 1, stride = 2, format = FRAMEBUF_RGB565\<rparr>
          1 0 0x00FF00 (empty_heap(0 := [0, 0, 0, 0])) = Inr hp'
        \<and> getpixel \<lparr>buf = 0, width = 2, height = 1, stride = 2, format = FRAMEBUF_RGB565\<rparr>
          1 0 hp' = Inr 0xE007)"
proof -
  let ?fb = "\<lparr>buf = 0, width = 2, height = 1, stride = 2, format = FRAMEBUF_RGB565\<rparr>"
  let ?hp = "empty_heap(0 := [0, 0, 0, 0])"
  have a: "format ?fb = FRAMEBUF_RGB565" by simp
  have b: "fits ?fb ?hp" by (simp add: fits_def bytes_needed_def)
  have c: "in_canvas ?fb 1 0" by (simp add: in_canvas_def)
  have "\<exists>hp'. setpixel ?fb 1 0 0x00FF00 ?hp = Inr hp' \<and> getpixel ?fb 1 0 hp' = Inr 0xE007"
    using rgb565_setpixel_stores_swapped[OF a b c, of "0x00FF00"]
    by (simp del: setpixel.simps getpixel.simps) blast
  with a b c show ?thesis by blast
qed

section \<open>Writing a pixel and reading it back\<close>

text \<open>
  Claim C4, as stated: for every format, every coordinate of the canvas and every colour
  \<open>c\<close> that the bit depth of the format can represent, \<^verbatim>\<open>pixel(x,y,c)\<close> and then
  \<^verbatim>\<open>pixel(x,y)\<close> returns \<open>c\<close>. For \<^verbatim>\<open>RGB565\<close> it does not: the colour \<open>0xFF\<close> fits in
  16 bits and reads back as \<open>0x1F00\<close>.
\<close>

theorem rgb565_pixel_roundtrip_counterexample:
  "in_canvas \<lparr>buf = 0, width = 2, height = 1, stride = 2, format = FRAMEBUF_RGB565\<rparr> 0 0
   \<and> (0xFF :: int) < 2 ^ bit_depth FRAMEBUF_RGB565
   \<and> pixel_set_get \<lparr>buf = 0, width = 2, height = 1, stride = 2, format = FRAMEBUF_RGB565\<rparr>
        0 0 0xFF (empty_heap(0 := [0, 0, 0, 0])) \<noteq> Inr (Some 0xFF)"
  by (simp add: in_canvas_def pixel_set_get_def framebuf_pixel_def rgb565_setpixel_def
      rgb565_getpixel_def store16_def load16_def load8_def store8_def rgb565_color_def COL_def
      COL0_def empty_heap_def)

text \<open>
  Claim C4, amended: on a framebuffer whose buffer holds the canvas, for every format
  other than \<^verbatim>\<open>RGB565\<close>, every coordinate of the canvas and every colour \<open>c\<close> that the bit
  depth of the format can represent, \<^verbatim>\<open>pixel(x,y,c)\<close> and then \<^verbatim>\<open>pixel(x,y)\<close> returns
  \<open>c\<close>; for \<^verbatim>\<open>RGB565\<close> it returns the byte-swapped 5-6-5 packing of \<open>c\<close>.
\<close>

theorem pixel_set_get_reads_stored:
  assumes "fits fb hp" and "in_canvas fb x y" and "0 \<le> c" and "c < 2 ^ bit_depth (format fb)"
  shows "pixel_set_get fb x y c hp
    = Inr (Some (if format fb = FRAMEBUF_RGB565 then uint (rgb565_color (word_of_int c)) else c))"
proof (cases "format fb = FRAMEBUF_RGB565")
  case True
  then show ?thesis using pixel_set_get_stored[OF assms(1,2), of c] by (simp add: uint_ucast_16_32)
next
  case False
  then show ?thesis
    using pixel_set_get_stored[OF assms(1,2), of c] stored_value_small[OF False assms(3,4)]
    by simp
qed

theorem pixel_set_get_reads_stored_witness:
  "fits \<lparr>buf = 0, width = 4, height = 1, stride = 4, format = FRAMEBUF_GS4_HMSB\<rparr>
     (empty_heap(0 := [0, 0]))
   \<and> in_canvas \<lparr>buf = 0, width = 4, height = 1, stride = 4, format = FRAMEBUF_GS4_HMSB\<rparr> 1 0
   \<and> (0::int) \<le> 5 \<and> (5::int) < 2 ^ bit_depth FRAMEBUF_GS4_HMSB
   \<and> pixel_set_get \<lparr>buf = 0, width = 4, height = 1, stride = 4, format = FRAMEBUF_GS4_HMSB\<rparr>
        1 0 5 (empty_heap(0 := [0, 0])) = Inr (Some 5)"
proof -
  let ?fb = "\<lparr>buf = 0, width = 4, height = 1, stride = 4, format = FRAMEBUF_GS4_HMSB\<rparr>"
  let ?hp = "empty_heap(0 := [0, 0])"
  have a: "fits ?fb ?hp" by (simp add: fits_def bytes_needed_def)
  have b: "in_canvas ?fb 1 0" by (simp add: in_canvas_def)
  have c: "(5::int) < 2 ^ bit_depth (format ?fb)" by simp
  have "pixel_set_get ?fb 1 0 5 ?hp = Inr (Some 5)"
    using pixel_set_get_reads_stored[OF a b _ c] by simp
  with a b show ?thesis by simp
qed

section \<open>Construction: stride alignment and the format check\<close>

text \<open>
  Claim C8, as stated, has the constructor round the stride up to a multiple of 8 for the
  three monochrome formats, and raise the \<^verbatim>\<open>ValueError\<close> exactly when the format
  identifier is not one of the seven constants. Three constructions show otherwise.
  For \<^verbatim>\<open>MONO_VLSB\<close> (format 0) the \<^verbatim>\<open>switch\<close> leaves through
  \<^verbatim>\<open>case FRAMEBUF_MVLSB: case FRAMEBUF_RGB565: break;\<close>, and a stride of 5 stays 5. The
  format is kept in a \<^verbatim>\<open>uint8_t\<close>, so the identifier 256, none of the seven, is taken
  for format 0 and raises nothing. The stride is kept in a \<^verbatim>\<open>uint16_t\<close>, so for
  \<^verbatim>\<open>MONO_HLSB\<close> the stride 65535 becomes 0, which is not 65535 rounded up.
\<close>

theorem mvlsb_stride_counterexample:
  "framebuf_make_new 0 5 8 0 None
     = Inr \<lparr>buf = 0, width = 5, height = 8, stride = 5, format = FRAMEBUF_MVLSB\<rparr>
   \<and> \<not> 8 dvd uint (stride \<lparr>buf = 0, width = 5, height = 8, stride = 5, format = FRAMEBUF_MVLSB\<rparr>)
   \<and> framebuf_make_new 0 8 8 256 None
     = Inr \<lparr>buf = 0, width = 8, height = 8, stride = 8, format = FRAMEBUF_MVLSB\<rparr>
   \<and> framebuf_make_new 0 8 8 3 (Some 65535)
     = Inr \<lparr>buf = 0, width = 8, height = 8, stride = 0, format = FRAMEBUF_MHLSB\<rparr>"
  by (simp add: framebuf_make_new_def)

text \<open>
  Claim C8, amended: construction with \<open>(buffer, width, height, format[, stride])\<close>, for a
  format identifier in \<open>0..255\<close>, raises the \<^verbatim>\<open>ValueError\<close> exactly when the identifier
  is not one of the seven constants; otherwise, whenever the rounded stride is below
  \<open>2^16\<close>, it rounds the stride up to a multiple of 8 for \<^verbatim>\<open>MONO_HLSB\<close> and
  \<^verbatim>\<open>MONO_HMSB\<close>, to a multiple of 4 for \<^verbatim>\<open>GS2_HMSB\<close>, to a multiple of 2 for
  \<^verbatim>\<open>GS4_HMSB\<close>, and leaves it unchanged for \<^verbatim>\<open>MONO_VLSB\<close>, \<^verbatim>\<open>RGB565\<close> and \<^verbatim>\<open>PL8\<close>.
  The stride that is rounded is the 16-bit value of the stride argument, or of the width
  when there is none; \<open>round_up m n\<close> is the least multiple of \<open>m\<close> from \<open>n\<close> on
  (\<open>round_up_least\<close>), and \<open>stride_alignment\<close> is 8, 4, 2 or 1 by format.
\<close>

theorem make_new_stride_and_format:
  assumes "0 \<le> f" and "f < 256"
  shows "(framebuf_make_new b w h f s = Inl (ValueError ''invalid format'')
            \<longleftrightarrow> f \<notin> {0, 1, 2, 3, 4, 5, 6})
    \<and> (f \<in> {0, 1, 2, 3, 4, 5, 6} \<longrightarrow> (\<exists>fb. framebuf_make_new b w h f s = Inr fb))
    \<and> (\<forall>fb. framebuf_make_new b w h f s = Inr fb \<longrightarrow>
          uint (format_id (format fb)) = f
          \<and> buf fb = b \<and> width fb = word_of_int w \<and> height fb = word_of_int h
          \<and> (round_up (stride_alignment (format fb))
                (uint ((case s of Some n \<Rightarrow> word_of_int n | None \<Rightarrow> word_of_int w) :: 16 word))
                < 65536
              \<longrightarrow> uint (stride fb)
                = round_up (stride_alignment (format fb))
                    (uint ((case s of Some n \<Rightarrow> word_of_int n | None \<Rightarrow> word_of_int w) :: 16 word))))"
proof -
  let ?st = "(case s of Some n \<Rightarrow> word_of_int n | None \<Rightarrow> word_of_int w) :: 16 word"
  note al = uint_align_fits[of ?st]
  consider "f = 0" | "f = 1" | "f = 2" | "f = 3" | "f = 4" | "f = 5" | "f = 6" | "7 \<le> f"
    using assms(1) by linarith
  then show ?thesis
  proof cases
    case 8
    then show ?thesis
      using format_byte_other[OF 8 assms(2)] by (simp add: framebuf_make_new_def Let_def)
  qed (use al in \<open>simp_all add: framebuf_make_new_def Let_def round_up_1\<close>)
qed

theorem make_new_stride_and_format_witness:
  "(0::int) \<le> 2 \<and> (2::int) < 256 \<and> (0::int) \<le> 9 \<and> (9::int) < 256
   \<and> framebuf_make_new 0 10 8 2 (Some 65534) \<noteq> Inl (ValueError ''invalid format'')
   \<and> framebuf_make_new 0 65535 8 9 None = Inl (ValueError ''invalid format'')"
  using make_new_stride_and_format[where f=2 and s="Some 65534" and w=10 and b=0 and h=8]
    make_new_stride_and_format[where f=9 and s=None and w=65535 and b=0 and h=8]
  by simp

section \<open>The pause between two frames\<close>

text \<open>
  Claim C7, as stated: after a frame the loop makes \<open>max(delay, 10)\<close> calls of the
  10 ms HAL wait. It does not: with a delay of 3 and the flag left alone it makes 3.
\<close>

theorem loadgif_pause_counterexample:
  "fst (loadgif_pause quiet_hal 3 1) \<noteq> max 3 10"
  by (simp add: loadgif_pause_def loadgif_dtime_def quiet_hal_def loadgif_delay_loop.simps)

text \<open>
  Claim C7, amended: after each decoded frame the engine sleeps \<open>delay\<close> times 10 ms when
  the delay is not zero and 10 times 10 ms when it is zero, by repeated calls of the
  10 ms HAL wait, and the loop exits early as soon as it finds the decoding flag false.
  With \<open>D\<close> the number of calls so chosen: the loop makes at most \<open>D\<close> calls, the flag
  was set at each test before a call, the loop stops before \<open>D\<close> calls only with the
  flag false, and it makes \<open>D\<close> calls when the flag stays set.
\<close>

theorem loadgif_pause_calls:
  "(case loadgif_pause hal delay g of
      (calls, fl) \<Rightarrow>
        calls \<le> unat (if delay \<noteq> 0 then delay else 10)
        \<and> fl = flag_from hal 0 g calls
        \<and> (\<forall>j < calls. flag_from hal 0 g j \<noteq> 0)
        \<and> (calls < unat (if delay \<noteq> 0 then delay else 10) \<longrightarrow> fl = 0))
   \<and> ((\<forall>j < unat (if delay \<noteq> 0 then delay else 10). flag_from hal 0 g j \<noteq> 0)
        \<longrightarrow> fst (loadgif_pause hal delay g) = unat (if delay \<noteq> 0 then delay else 10))"
proof -
  let ?D = "unat (if delay \<noteq> 0 then delay else 10)"
  obtain calls fl where r: "loadgif_pause hal delay g = (calls, fl)"
    by (cases "loadgif_pause hal delay g")
  then have l: "loadgif_delay_loop hal (if delay \<noteq> 0 then delay else 10) 0 g = (calls, fl)"
    by (simp add: loadgif_pause_def loadgif_dtime_def)
  have c: "calls \<le> ?D" "fl = flag_from hal 0 g calls" "\<forall>j < calls. flag_from hal 0 g j \<noteq> 0"
    "calls < ?D \<longrightarrow> fl = 0"
    using delay_loop_char[where hal=hal and dtime="if delay \<noteq> 0 then delay else 10" and c=0 and g=g] unfolding l by auto
  have "(\<forall>j < ?D. flag_from hal 0 g j \<noteq> 0) \<longrightarrow> calls = ?D"
  proof
    assume a: "\<forall>j < ?D. flag_from hal 0 g j \<noteq> 0"
    show "calls = ?D"
    proof (rule ccontr)
      assume "calls \<noteq> ?D"
      then have "calls < ?D" using c(1) by linarith
      then show False using c(2,4) a by auto
    qed
  qed
  then show ?thesis unfolding r using c by simp
qed

theorem loadgif_pause_calls_witness:
  "fst (loadgif_pause quiet_hal 0 1) = 10 \<and> fst (loadgif_pause quiet_hal 3 1) = 3"
proof -
  have q: "flag_from quiet_hal c 1 j \<noteq> 0" for c j
    by (induction j arbitrary: c) (simp_all add: quiet_hal_def)
  show ?thesis
    using loadgif_pause_calls[where hal=quiet_hal and delay=0 and g=1]
      loadgif_pause_calls[where hal=quiet_hal and delay=3 and g=1] q by simp
qed

section \<open>The clipped rectangle router\<close>

text \<open>
  Claim C2, as stated, holds for every \<open>(x, y, w, h, col)\<close>. It fails where the 32-bit
  sum \<open>x + w\<close> passes \<^verbatim>\<open>INT_MAX\<close>: on a 4 by 1 \<^verbatim>\<open>PL8\<close> framebuffer,
  \<^verbatim>\<open>fill_rect(1, 0, 0x7fffffff, 1, 7)\<close> meets none of the six conditions of the claim, so
  the claim has the router fill three pixels from \<open>x = 1\<close>; the sum wraps to a negative
  value, the guard \<^verbatim>\<open>x + w <= 0\<close> holds and the router does nothing.
\<close>

theorem fill_rect_overflow_counterexample:
  "fill_rect \<lparr>buf = 0, width = 4, height = 1, stride = 4, format = FRAMEBUF_PL8\<rparr>
      1 0 0x7fffffff 1 7 (empty_heap(0 := [0, 0, 0, 0]))
     = Inr (empty_heap(0 := [0, 0, 0, 0]))
   \<and> \<not> ((0x7fffffff :: int) < 1 \<or> (1 :: int) < 1 \<or> (1 :: int) + 0x7fffffff \<le> 0
          \<or> (0 :: int) + 1 \<le> 0
          \<or> (0 :: int) \<ge> uint (height \<lparr>buf = 0, width = 4, height = 1, stride = 4,
                                     format = FRAMEBUF_PL8\<rparr>)
          \<or> (1 :: int) \<ge> uint (width \<lparr>buf = 0, width = 4, height = 1, stride = 4,
                                    format = FRAMEBUF_PL8\<rparr>))
   \<and> formats_fill_rect \<lparr>buf = 0, width = 4, height = 1, stride = 4, format = FRAMEBUF_PL8\<rparr>
        (max 1 0) (max 0 0)
        (nat (min (uint (width \<lparr>buf = 0, width = 4, height = 1, stride = 4,
                                format = FRAMEBUF_PL8\<rparr>)) (1 + 0x7fffffff) - max 1 0))
        (nat (min (uint (height \<lparr>buf = 0, width = 4, height = 1, stride = 4,
                                 format = FRAMEBUF_PL8\<rparr>)) (0 + 1) - max 0 0))
        7 (empty_heap(0 := [0, 0, 0, 0]))
     = Inr (empty_heap(0 := [0, 7, 7, 7]))"
  by (simp add: fill_rect_def int32_def gs8_fill_rect_def store8_def memset_numeral)

text \<open>
  Claim C2, amended: for every framebuffer and every \<open>(x, y, w, h, col)\<close> whose sums
  \<open>x + w\<close> and \<open>y + h\<close> are 32-bit integers, that is in \<open>[-2^31, 2^31)\<close>: if \<open>w < 1\<close> or
  \<open>h < 1\<close> or \<open>x + w \<le> 0\<close> or \<open>y + h \<le> 0\<close> or \<open>y \<ge> height\<close> or \<open>x \<ge> width\<close> the
  router does nothing; otherwise it calls the fill of the format with \<open>x' = max(x, 0)\<close>,
  \<open>y' = max(y, 0)\<close>, the width \<open>xend - x'\<close> where \<open>xend = min(width, x + w)\<close> and the
  height \<open>yend - y'\<close> where \<open>yend = min(height, y + h)\<close>. The second part of the
  theorem adds that those extents are not negative and that the rectangle passed on
  lies in the canvas.
\<close>

theorem fill_rect_clips:
  assumes "- (2 ^ 31) \<le> x + w" and "x + w < 2 ^ 31"
    and "- (2 ^ 31) \<le> y + h" and "y + h < 2 ^ 31"
  shows "fill_rect fb x y w h col hp =
     (if w < 1 \<or> h < 1 \<or> x + w \<le> 0 \<or> y + h \<le> 0 \<or> y \<ge> uint (height fb) \<or> x \<ge> uint (width fb)
      then Inr hp
      else formats_fill_rect fb (max x 0) (max y 0)
             (nat (min (uint (width fb)) (x + w) - max x 0))
             (nat (min (uint (height fb)) (y + h) - max y 0)) col hp)
   \<and> (\<not> (w < 1 \<or> h < 1 \<or> x + w \<le> 0 \<or> y + h \<le> 0 \<or> y \<ge> uint (height fb) \<or> x \<ge> uint (width fb))
        \<longrightarrow> 0 \<le> min (uint (width fb)) (x + w) - max x 0
          \<and> 0 \<le> min (uint (height fb)) (y + h) - max y 0
          \<and> max x 0 + (min (uint (width fb)) (x + w) - max x 0) \<le> uint (width fb)
          \<and> max y 0 + (min (uint (height fb)) (y + h) - max y 0) \<le> uint (height fb))"
proof -
  have s: "int32 (x + w) = x + w" "int32 (y + h) = y + h"
    using assms by (simp_all add: int32_id)
  have "fill_rect fb x y w h col hp =
     (if w < 1 \<or> h < 1 \<or> x + w \<le> 0 \<or> y + h \<le> 0 \<or> y \<ge> uint (height fb) \<or> x \<ge> uint (width fb)
      then Inr hp
      else formats_fill_rect fb (max x 0) (max y 0)
             (nat (min (uint (width fb)) (x + w) - max x 0))
             (nat (min (uint (height fb)) (y + h) - max y 0)) col hp)"
    unfolding fill_rect_def s by (auto simp: Let_def simp del: formats_fill_rect.simps)
  moreover have "\<not> (w < 1 \<or> h < 1 \<or> x + w \<le> 0 \<or> y + h \<le> 0 \<or> y \<ge> uint (height fb) \<or> x \<ge> uint (width fb))
        \<longrightarrow> 0 \<le> min (uint (width fb)) (x + w) - max x 0
          \<and> 0 \<le> min (uint (height fb)) (y + h) - max y 0
          \<and> max x 0 + (min (uint (width fb)) (x + w) - max x 0) \<le> uint (width fb)
          \<and> max y 0 + (min (uint (height fb)) (y + h) - max y 0) \<le> uint (height fb)"
  proof (intro impI)
    assume "\<not> (w < 1 \<or> h < 1 \<or> x + w \<le> 0 \<or> y + h \<le> 0 \<or> y \<ge> uint (height fb) \<or> x \<ge> uint (width fb))"
    then have f: "1 \<le> w" "1 \<le> h" "0 < x + w" "0 < y + h" "y < uint (height fb)" "x < uint (width fb)"
      by auto
    have g: "0 \<le> uint (width fb)" "0 \<le> uint (height fb)" by simp_all
    show "0 \<le> min (uint (width fb)) (x + w) - max x 0
          \<and> 0 \<le> min (uint (height fb)) (y + h) - max y 0
          \<and> max x 0 + (min (uint (width fb)) (x + w) - max x 0) \<le> uint (width fb)
          \<and> max y 0 + (min (uint (height fb)) (y + h) - max y 0) \<le> uint (height fb)"
      using f g by (intro conjI) linarith+
  qed
  ultimately show ?thesis by blast
qed

theorem fill_rect_clips_witness:
  "- (2 ^ 31) \<le> (- 5 :: int) + 10 \<and> (- 5 :: int) + 10 < 2 ^ 31
   \<and> - (2 ^ 31) \<le> (8 :: int) + 3 \<and> (8 :: int) + 3 < 2 ^ 31
   \<and> - (2 ^ 31) \<le> (0 :: int) + 3 \<and> (0 :: int) + 3 < 2 ^ 31
   \<and> fill_rect \<lparr>buf = 0, width = 8, height = 8, stride = 8, format = FRAMEBUF_MHLSB\<rparr>
      (- 5) (- 5) 10 10 1 (empty_heap(0 := [0, 0, 0, 0, 0, 0, 0, 0]))
    = formats_fill_rect \<lparr>buf = 0, width = 8, height = 8, stride = 8, format = FRAMEBUF_MHLSB\<rparr>
        0 0 5 5 1 (empty_heap(0 := [0, 0, 0, 0, 0, 0, 0, 0]))
   \<and> fill_rect \<lparr>buf = 0, width = 8, height = 8, stride = 8, format = FRAMEBUF_MHLSB\<rparr>
      8 0 3 3 1 (empty_heap(0 := [0, 0, 0, 0, 0, 0, 0, 0]))
    = Inr (empty_heap(0 := [0, 0, 0, 0, 0, 0, 0, 0]))"
proof -
  have a: "- (2 ^ 31) \<le> (- 5 :: int) + 10" "(- 5 :: int) + 10 < 2 ^ 31" by simp_all
  have b: "- (2 ^ 31) \<le> (8 :: int) + 3" "(8 :: int) + 3 < 2 ^ 31" by simp_all
  have c: "- (2 ^ 31) \<le> (0 :: int) + 3" "(0 :: int) + 3 < 2 ^ 31" by simp_all
  show ?thesis
    using fill_rect_clips[OF a a,
        where fb = "\<lparr>buf = 0, width = 8, height = 8, stride = 8, format = FRAMEBUF_MHLSB\<rparr>"
        and col = 1 and hp = "empty_heap(0 := [0, 0, 0, 0, 0, 0, 0, 0])"]
      fill_rect_clips[OF b c,
        where fb = "\<lparr>buf = 0, width = 8, height = 8, stride = 8, format = FRAMEBUF_MHLSB\<rparr>"
        and col = 1 and hp = "empty_heap(0 := [0, 0, 0, 0, 0, 0, 0, 0])"]
    by (simp del: formats_fill_rect.simps)
qed

section \<open>The blit without a key\<close>

text \<open>
  Claim C9: without a key argument the key \<open>-1\<close> is compared as the 32-bit value
  \<open>0xFFFFFFFF\<close>; no format's \<^verbatim>\<open>getpixel\<close> returns it, every format yielding at most 16
  significant bits; so a blit without key copies every pixel of the clipped overlap,
  skipping no source value: it is the copy that tests no key.
\<close>

theorem keyless_blit_copies_all:
  "(word_of_int (- 1) :: 32 word) = 0xFFFFFFFF
   \<and> (getpixel source sx sy hp0 = Inr v \<longrightarrow> v \<le> 0xFFFF \<and> v \<noteq> word_of_int (- 1))
   \<and> framebuf_blit self source x y None hp = copy_overlap self source x y hp"
proof -
  have a: "(word_of_int (- 1) :: 32 word) = 0xFFFFFFFF" by simp
  have b: "getpixel source sx sy hp0 = Inr v \<longrightarrow> v \<le> 0xFFFF \<and> v \<noteq> word_of_int (- 1)"
    using getpixel_16bit getpixel_not_minus_1 by (auto simp del: getpixel.simps)
  have c: "framebuf_blit self source x y None hp = copy_overlap self source x y hp"
    by (simp add: framebuf_blit_def copy_overlap_def blit_rows_keyless Let_def)
  from a b c show ?thesis by blast
qed

theorem keyless_blit_copies_all_witness:
  "getpixel \<lparr>buf = 1, width = 2, height = 1, stride = 2, format = FRAMEBUF_PL8\<rparr> 0 0
      ((empty_heap(0 := [0, 0, 0]))(1 := [0xFF, 0x07])) = Inr 0xFF
   \<and> (0xFF :: 32 word) \<noteq> word_of_int (- 1)
   \<and> framebuf_blit \<lparr>buf = 0, width = 3, height = 1, stride = 3, format = FRAMEBUF_PL8\<rparr>
        \<lparr>buf = 1, width = 2, height = 1, stride = 2, format = FRAMEBUF_PL8\<rparr> 1 0 None
        ((empty_heap(0 := [0, 0, 0]))(1 := [0xFF, 0x07]))
      = Inr ((empty_heap(0 := [0, 0xFF, 0x07]))(1 := [0xFF, 0x07]))"
proof -
  let ?src = "\<lparr>buf = 1, width = 2, height = 1, stride = 2, format = FRAMEBUF_PL8\<rparr>"
  let ?dst = "\<lparr>buf = 0, width = 3, height = 1, stride = 3, format = FRAMEBUF_PL8\<rparr>"
  let ?hp = "(empty_heap(0 := [0, 0, 0]))(1 := [0xFF, 0x07])"
  have g: "getpixel ?src 0 0 ?hp = Inr 0xFF" by (simp add: gs8_getpixel_def load8_def)
  have c: "copy_overlap ?dst ?src 1 0 ?hp = Inr ((empty_heap(0 := [0, 0xFF, 0x07]))(1 := [0xFF, 0x07]))"
    by (simp add: copy_overlap_def copy_rows.simps copy_row.simps gs8_getpixel_def
        gs8_setpixel_def load8_def store8_def fun_upd_twist)
  show ?thesis
    using keyless_blit_copies_all[where source = ?src and sx = 0 and sy = 0 and ?hp0.0 = ?hp
        and v = "0xFF" and self = ?dst and x = 1 and y = 0 and hp = ?hp] g c
    by (simp del: getpixel.simps)
qed

section \<open>Termination of scroll\<close>

text \<open>
  Claim C10: \<^verbatim>\<open>scroll(xstep, ystep)\<close> terminates for every \<open>xstep\<close> with
  \<open>|xstep| \<le> width\<close> and every \<open>ystep\<close> with \<open>|ystep| \<le> height\<close>: both loop indices
  reach their end values. The loops are partial functions, so that a result \<open>Some r\<close>
  is a run that ends. The first part of the theorem is termination on any store; the
  second adds that on a framebuffer whose buffer holds the canvas no access faults, so
  that the run ends because both indices have reached their end values.
\<close>

theorem scroll_terminates:
  assumes "\<bar>xstep\<bar> \<le> uint (width self)" and "\<bar>ystep\<bar> \<le> uint (height self)"
  shows "(\<exists>r. framebuf_scroll self xstep ystep hp = Some r)
    \<and> (fits self hp \<longrightarrow> (\<exists>hp'. framebuf_scroll self xstep ystep hp = Some (Inr hp')))"
proof -
  let ?W = "uint (width self)" and ?H = "uint (height self)"
  let ?sx = "if xstep < 0 then 0 else ?W - 1"
  let ?xend = "if xstep < 0 then ?W + xstep else xstep - 1"
  let ?dx = "if xstep < 0 then 1 else - 1 :: int"
  let ?y = "if ystep < 0 then 0 else ?H - 1"
  let ?yend = "if ystep < 0 then ?H + ystep else ystep - 1"
  let ?dy = "if ystep < 0 then 1 else - 1 :: int"
  have e: "framebuf_scroll self xstep ystep hp
      = scroll_rows self xstep ystep ?sx ?xend ?dx ?yend ?dy ?y hp"
    by (simp add: framebuf_scroll_def)
  have dx: "(?dx = 1 \<and> ?sx \<le> ?xend) \<or> (?dx = - 1 \<and> ?xend \<le> ?sx)"
    using assms(1) by auto
  have dy: "(?dy = 1 \<and> ?y \<le> ?yend) \<or> (?dy = - 1 \<and> ?yend \<le> ?y)"
    using assms(2) by auto
  have a: "\<exists>r. framebuf_scroll self xstep ystep hp = Some r"
    unfolding e using dy dx by (rule scroll_rows_returns)
  have b: "\<exists>hp'. framebuf_scroll self xstep ystep hp = Some (Inr hp')" if fit: "fits self hp"
  proof -
    have c: "\<forall>x' y'. ((?dx = 1 \<and> ?sx \<le> x' \<and> x' < ?xend) \<or> (?dx = - 1 \<and> ?xend < x' \<and> x' \<le> ?sx))
           \<and> ((?dy = 1 \<and> ?y \<le> y' \<and> y' < ?yend) \<or> (?dy = - 1 \<and> ?yend < y' \<and> y' \<le> ?y))
           \<longrightarrow> in_canvas self x' y' \<and> in_canvas self (x' - xstep) (y' - ystep)"
      using assms by (auto simp: in_canvas_def split: if_splits)
    show ?thesis unfolding e using scroll_rows_ok[OF dy dx fit c] by blast
  qed
  from a b show ?thesis by blast
qed

theorem scroll_terminates_witness:
  "\<bar>1 :: int\<bar> \<le> uint (width \<lparr>buf = 0, width = 8, height = 8, stride = 8, format = FRAMEBUF_MVLSB\<rparr>)
   \<and> \<bar>- 2 :: int\<bar> \<le> uint (height \<lparr>buf = 0, width = 8, height = 8, stride = 8, format = FRAMEBUF_MVLSB\<rparr>)
   \<and> fits \<lparr>buf = 0, width = 8, height = 8, stride = 8, format = FRAMEBUF_MVLSB\<rparr>
        (empty_heap(0 := [1, 2, 3, 4, 5, 6, 7, 8]))
   \<and> (\<exists>hp'. framebuf_scroll \<lparr>buf = 0, width = 8, height = 8, stride = 8, format = FRAMEBUF_MVLSB\<rparr>
          1 (- 2) (empty_heap(0 := [1, 2, 3, 4, 5, 6, 7, 8])) = Some (Inr hp'))"
proof -
  let ?fb = "\<lparr>buf = 0, width = 8, height = 8, stride = 8, format = FRAMEBUF_MVLSB\<rparr>"
  let ?hp = "empty_heap(0 := [1, 2, 3, 4, 5, 6, 7, 8])"
  have a: "\<bar>1 :: int\<bar> \<le> uint (width ?fb)" by simp
  have b: "\<bar>- 2 :: int\<bar> \<le> uint (height ?fb)" by simp
  have c: "fits ?fb ?hp" by (simp add: fits_def bytes_needed_def)
  show ?thesis using scroll_terminates[OF a b, of ?hp] a b c by blast
qed

section \<open>The outline of a circle\<close>

text \<open>
  Claim C1 asks that no drawing method, for any arguments, reads or writes a byte outside
  the buffer. The outline branch of \<^verbatim>\<open>framebuf_circle\<close> calls \<^verbatim>\<open>setpixel\<close> eight times
  per step with no test of the coordinates, where \<^verbatim>\<open>drawLine\<close>, \<^verbatim>\<open>framebuf_text\<close> and
  \<^verbatim>\<open>framebuf_pixel\<close> test each coordinate and the filled circle goes through the
  router. On an 8 by 8 \<^verbatim>\<open>MONO_VLSB\<close> framebuffer whose eight bytes hold the canvas,
  \<^verbatim>\<open>circle(0, 0, 2, 1)\<close> writes the pixel \<open>(-1, 2)\<close>, the byte before the buffer.
\<close>

theorem circle_outline_leaves_buffer:
  "fits \<lparr>buf = 0, width = 8, height = 8, stride = 8, format = FRAMEBUF_MVLSB\<rparr>
      (empty_heap(0 := [0, 0, 0, 0, 0, 0, 0, 0]))
   \<and> framebuf_circle \<lparr>buf = 0, width = 8, height = 8, stride = 8, format = FRAMEBUF_MVLSB\<rparr>
      0 0 2 1 None (empty_heap(0 := [0, 0, 0, 0, 0, 0, 0, 0])) = Inl (OutOfBounds (- 1))"
  by (simp add: fits_def bytes_needed_def framebuf_circle_def circle_loop.simps
      mvlsb_setpixel_def load8_def store8_def set_bit_to_def empty_heap_def)

section \<open>Transparent runs of a GIF frame\<close>

text \<open>
  Claim C6 asks that with disposal method 2 a transparent run be painted with the
  background colour. The frame below is 3 pixels wide and 1 high, its colour table is
  \<open>0xAA, 0xBB\<close>, the background index is 1 (colour \<open>0xBB\<close>), the transparency index is 0
  and the disposal method is 2; the framebuffer is 4 by 1 \<^verbatim>\<open>PL8\<close> over zero bytes. With
  the indices \<open>0, 0, 1\<close> the transparent run of two pixels is painted \<open>0xAA\<close>, the table
  entry of the transparency index: that \<^verbatim>\<open>fill_rect\<close> call passes
  \<^verbatim>\<open>*(pTrans+OldIndex)\<close>, where the line commented out above it passed \<^verbatim>\<open>bkcolor\<close>. The
  two sibling paths do paint the background colour \<open>0xBB\<close>: the single transparent
  pixel of \<open>0, 1, 1\<close> and the transparent run that ends the row of \<open>1, 0, 0\<close>.
\<close>

theorem gif_transparent_run_takes_table_colour:
  "colortbl \<lparr>gifISD_width = 3, gifISD_height = 1, gifISD_flag = 0, gifLSD_bkcindex = 1,
      colortbl = two_colours, numcolors = 2\<rparr>
     (uint (gifLSD_bkcindex \<lparr>gifISD_width = 3, gifISD_height = 1, gifISD_flag = 0,
        gifLSD_bkcindex = 1, colortbl = two_colours, numcolors = 2\<rparr>)) = 0xBB
   \<and> gif_dispimage \<lparr>buf = 0, width = 4, height = 1, stride = 4, format = FRAMEBUF_PL8\<rparr>
       \<lparr>gifISD_width = 3, gifISD_height = 1, gifISD_flag = 0, gifLSD_bkcindex = 1,
        colortbl = two_colours, numcolors = 2\<rparr> zero_past 0 0 0 2 [0, 0, 1]
       (empty_heap(0 := [0, 0, 0, 0]))
     = Inr (0, empty_heap(0 := [0xAA, 0xAA, 0xBB, 0]))
   \<and> gif_dispimage \<lparr>buf = 0, width = 4, height = 1, stride = 4, format = FRAMEBUF_PL8\<rparr>
       \<lparr>gifISD_width = 3, gifISD_height = 1, gifISD_flag = 0, gifLSD_bkcindex = 1,
        colortbl = two_colours, numcolors = 2\<rparr> zero_past 0 0 0 2 [0, 1, 1]
       (empty_heap(0 := [0, 0, 0, 0]))
     = Inr (0, empty_heap(0 := [0xBB, 0xBB, 0xBB, 0]))
   \<and> gif_dispimage \<lparr>buf = 0, width = 4, height = 1, stride = 4, format = FRAMEBUF_PL8\<rparr>
       \<lparr>gifISD_width = 3, gifISD_height = 1, gifISD_flag = 0, gifLSD_bkcindex = 1,
        colortbl = two_colours, numcolors = 2\<rparr> zero_past 0 0 0 2 [1, 0, 0]
       (empty_heap(0 := [0, 0, 0, 0]))
     = Inr (0, empty_heap(0 := [0xBB, 0xBB, 0xBB, 0]))"
  by (simp add: gif_dispimage_def gif_rows.simps gif_row.simps next_index_def two_colours_def
      fill_rect_def int32_def gs8_fill_rect_def gs8_setpixel_def store8_def gif_row_flush_def
      memset_numeral Let_def)

end
